theory Spec2Isabelle
  imports Complex_Main "HOL-Library.Multiset" "HOL-Library.Word"
    "HOL-Library.List_Lexorder" "HOL-Library.Char_ord"
begin

unbundle bit_operations_syntax

section \<open>Data model\<close>

text \<open>
  The program under verification is \<^verbatim>\<open>src/server/journal_gpt.py\<close>: journal entries are
  stored as points of one Qdrant collection, retrieved per user by semantic search with a
  recency fallback, and handed to a chat-completion model.

  Every exception of the source is a value of \<open>error\<close>; a call that may raise returns
  \<open>error + 'a\<close> with \<open>Inl\<close> for the exception. The source only ever catches
  \<^verbatim>\<open>Exception\<close> as a whole, so the constructors merely name where a fault comes from.
\<close>

datatype error =
    EmbeddingError
  | IndexError
  | GenerationError
  | ValidationError
  | TypeError
  | MalformedResponseError

text \<open>
  The payload of a point as LangChain writes it: \<^verbatim>\<open>{"page_content": text, "metadata":
  {"user_id": ..., "timestamp": ..., "type": ...}}\<close>. The collection is an external
  store, so a record need not be one that \<^verbatim>\<open>store_journal_entry\<close> wrote, and the
  source reads every key with \<^verbatim>\<open>dict.get\<close>: a key can be absent, hold
  \<^verbatim>\<open>null\<close>, or hold a value. The timestamp can hold an integer or a string; the text,
  when it holds a value, holds a string. The user and the type are only matched against a
  string, so all that matters is which string they hold, if any.
\<close>

datatype 'a field = Absent | Null | Stored 'a

datatype scalar = SInt int | SStr string

record metadata =
  md_user_id :: "string option"
  md_timestamp :: "scalar field"
  md_type :: "string option"

record point =
  point_id :: string
  vector :: "real list"
  page_content :: "string field"
  metadata :: "metadata option"

text \<open>A must-filter: a list of (key path, value to match) conditions.\<close>

type_synonym qfilter = "(string \<times> string) list"

record chat_request =
  model :: string
  temperature :: real
  max_tokens :: "nat option"
  messages :: "(string \<times> string) list"

text \<open>The calls made to the external services, in the order they are made.\<close>

datatype call =
    QdrantScroll qfilter nat
  | EmbedQuery string
  | QdrantSearch qfilter int
  | EmbedTexts "string list"
  | QdrantUpsert string
  | ChatCompletion chat_request

text \<open>
  The external collaborators, as parameters: the embedding provider, the faults the vector
  index may raise, the similarity score the index ranks by (the floating-point cosine of the
  source's collection, kept abstract), and the completion provider.
\<close>

record env =
  embed :: "string \<Rightarrow> error + real list"
  scroll_fault :: "error option"
  search_fault :: "real list \<Rightarrow> int \<Rightarrow> error option"
  upsert_fault :: "error option"
  cosine :: "real list \<Rightarrow> real list \<Rightarrow> real"
  chat :: "chat_request \<Rightarrow> error + string"

section \<open>The vector index and the vector store wrapper\<close>

definition COLLECTION_NAME :: string where
  "COLLECTION_NAME = ''journals''"

definition EMBEDDING_DIM :: nat where
  "EMBEDDING_DIM = 1536"

text \<open>Reading a key path of a payload; only string-valued keys can match a string.\<close>

definition payload_lookup :: "string \<Rightarrow> point \<Rightarrow> string option" where
  "payload_lookup k p =
     (if k = ''page_content'' then
        (case page_content p of Stored t \<Rightarrow> Some t | _ \<Rightarrow> None)
      else if k = ''metadata.user_id'' then
        (case metadata p of None \<Rightarrow> None | Some m \<Rightarrow> md_user_id m)
      else if k = ''metadata.type'' then
        (case metadata p of None \<Rightarrow> None | Some m \<Rightarrow> md_type m)
      else None)"

definition matches :: "qfilter \<Rightarrow> point \<Rightarrow> bool" where
  "matches flt p = list_all (\<lambda>(k, v). payload_lookup k p = Some v) flt"

text \<open>
  Modelled from the spec: the index operation \<^verbatim>\<open>scan(filter, limit)\<close> (Qdrant's
  \<^verbatim>\<open>scroll\<close>, a library call) returns the records matching an exact-match metadata
  filter, up to \<open>limit\<close>. The collection is a list in the order the index scans it.
\<close>

definition scroll :: "env \<Rightarrow> point list \<Rightarrow> qfilter \<Rightarrow> nat \<Rightarrow> call list \<times> (error + point list)" where
  "scroll e coll flt cap =
     ([QdrantScroll flt cap],
      (case scroll_fault e of
         Some err \<Rightarrow> Inl err
       | None \<Rightarrow> Inr (take cap (filter (matches flt) coll))))"

text \<open>
  The wrapper turns its dictionary filter \<^verbatim>\<open>{"user_id": u, "type": "journal"}\<close> into
  conditions on the keys under \<^verbatim>\<open>metadata\<close>.
\<close>

definition qdrant_filter :: "(string \<times> string) list \<Rightarrow> qfilter" where
  "qdrant_filter d = map (\<lambda>(k, v). (''metadata.'' @ k, v)) d"

text \<open>
  The wrapper turns every hit into a document,
  \<^verbatim>\<open>Document(page_content=payload.get("page_content", ""), metadata=...)\<close>: an absent
  text becomes the empty string. The text of a document must be a string, so a text that is
  \<^verbatim>\<open>null\<close> makes the construction fail, and with it the whole search.
\<close>

record document =
  doc_page_content :: string
  doc_metadata :: "metadata option"

definition document_text :: "point \<Rightarrow> error + string" where
  "document_text p =
     (case page_content p of
        Absent \<Rightarrow> Inr []
      | Null \<Rightarrow> Inl ValidationError
      | Stored t \<Rightarrow> Inr t)"

fun documents :: "point list \<Rightarrow> error + document list" where
  "documents [] = Inr []"
| "documents (p # ps) =
     (case document_text p of
        Inl err \<Rightarrow> Inl err
      | Inr t \<Rightarrow>
          (case documents ps of
             Inl err \<Rightarrow> Inl err
           | Inr ds \<Rightarrow> Inr (\<lparr>doc_page_content = t, doc_metadata = metadata p\<rparr> # ds)))"

text \<open>
  Modelled from the spec: \<^verbatim>\<open>similaritySearch(queryVector, filter, k)\<close> (the library call
  \<^verbatim>\<open>vectorstore.similarity_search\<close>) embeds the query with the embedding provider, then
  returns the \<open>k\<close> records closest to the query vector among the records matching the
  filter, ranked by descending similarity. Either step may raise.
\<close>

definition similarity_search ::
  "env \<Rightarrow> point list \<Rightarrow> string \<Rightarrow> int \<Rightarrow> (string \<times> string) list \<Rightarrow> call list \<times> (error + document list)" where
  "similarity_search e coll query k flt =
     (case embed e query of
        Inl err \<Rightarrow> ([EmbedQuery query], Inl err)
      | Inr qv \<Rightarrow>
          ([EmbedQuery query, QdrantSearch (qdrant_filter flt) k],
           (case search_fault e qv k of
              Some err \<Rightarrow> Inl err
            | None \<Rightarrow>
                documents
                  (take (nat k)
                     (sort_key (\<lambda>p. - cosine e qv (vector p))
                        (filter (matches (qdrant_filter flt)) coll))))))"

text \<open>
  Modelled from the spec: \<^verbatim>\<open>upsert(id, vector, payload)\<close> stores or overwrites the record
  with that id.
\<close>

definition upsert :: "point \<Rightarrow> point list \<Rightarrow> point list" where
  "upsert p coll =
     (if point_id p \<in> set (map point_id coll)
      then map (\<lambda>q. if point_id q = point_id p then p else q) coll
      else coll @ [p])"

text \<open>
  Modelled from the spec: adding a text (the library call \<^verbatim>\<open>vectorstore.add_texts\<close> with
  one text) obtains its vector from the embedding provider and only then writes the record;
  a failure of either step raises and leaves the collection as it was.
\<close>

definition add_texts ::
  "env \<Rightarrow> point list \<Rightarrow> string \<Rightarrow> metadata \<Rightarrow> string \<Rightarrow> call list \<times> (error + unit) \<times> point list" where
  "add_texts e coll text md pid =
     (case embed e text of
        Inl err \<Rightarrow> ([EmbedTexts [text]], Inl err, coll)
      | Inr v \<Rightarrow>
          (case upsert_fault e of
             Some err \<Rightarrow> ([EmbedTexts [text], QdrantUpsert pid], Inl err, coll)
           | None \<Rightarrow>
               ([EmbedTexts [text], QdrantUpsert pid], Inr (),
                upsert \<lparr>point_id = pid, vector = v, page_content = Stored text,
                         metadata = Some md\<rparr> coll)))"

section \<open>The program\<close>

subsection \<open>Python helpers\<close>

text \<open>\<^verbatim>\<open>xs[:n]\<close>: a negative \<open>n\<close> counts from the end.\<close>

definition slice_to :: "int \<Rightarrow> 'a list \<Rightarrow> 'a list" where
  "slice_to n xs =
     (if 0 \<le> n then take (nat n) xs else take (nat (int (length xs) + n)) xs)"

text \<open>
  \<^verbatim>\<open>sorted(xs, key=key, reverse=True)\<close>. A key of the program is \<^verbatim>\<open>None\<close>, an integer
  or a string (\<open>scalar option\<close>). The list is reversed, sorted stably in ascending
  order of the keys, and reversed again, so that equal keys keep their order. Keys are
  compared with \<^verbatim>\<open><\<close>, which raises \<^verbatim>\<open>TypeError\<close> when an operand is \<^verbatim>\<open>None\<close> and
  between an integer and a string. With two or more elements every element takes part in a
  comparison, so the sort succeeds exactly when all keys are integers or all are strings.
\<close>

fun is_int :: "scalar option \<Rightarrow> bool" where
  "is_int (Some (SInt i)) = True"
| "is_int _ = False"

fun is_str :: "scalar option \<Rightarrow> bool" where
  "is_str (Some (SStr s)) = True"
| "is_str _ = False"

fun int_of :: "scalar option \<Rightarrow> int" where
  "int_of (Some (SInt i)) = i"
| "int_of _ = 0"

fun str_of :: "scalar option \<Rightarrow> string" where
  "str_of (Some (SStr s)) = s"
| "str_of _ = []"

definition sorted_reverse :: "('a \<Rightarrow> scalar option) \<Rightarrow> 'a list \<Rightarrow> error + 'a list" where
  "sorted_reverse key xs =
     (if length xs \<le> 1 then Inr xs
      else if list_all (\<lambda>x. is_int (key x)) xs
        then Inr (rev (sort_key (\<lambda>x. int_of (key x)) (rev xs)))
      else if list_all (\<lambda>x. is_str (key x)) xs
        then Inr (rev (sort_key (\<lambda>x. str_of (key x)) (rev xs)))
      else Inl TypeError)"

text \<open>
  \<^verbatim>\<open>str(uuid.uuid4())\<close>: \<^verbatim>\<open>uuid4\<close> reads sixteen bytes from the random source of the
  operating system and sets the variant and version bits; \<^verbatim>\<open>str\<close> prints the 32
  hexadecimal digits of the number in groups of 8, 4, 4, 4 and 12.
\<close>

definition uuid4 :: "128 word \<Rightarrow> 128 word" where
  "uuid4 random =
     (((random AND NOT (push_bit 48 0xc000)) OR push_bit 48 0x8000)
        AND NOT (push_bit 64 0xf000)) OR push_bit 76 4"

definition hex_digit :: "nat \<Rightarrow> char" where
  "hex_digit d = ''0123456789abcdef'' ! d"

fun hex_digits :: "nat \<Rightarrow> nat \<Rightarrow> string" where
  "hex_digits 0 n = []"
| "hex_digits (Suc k) n = hex_digits k (n div 16) @ [hex_digit (n mod 16)]"

definition str_uuid :: "128 word \<Rightarrow> string" where
  "str_uuid u =
     (let hex = hex_digits 32 (unat u)
      in take 8 hex @ ''-'' @ take 4 (drop 8 hex) @ ''-'' @ take 4 (drop 12 hex) @ ''-''
         @ take 4 (drop 16 hex) @ ''-'' @ drop 20 hex)"

text \<open>\<^verbatim>\<open>sep.join(xs)\<close>\<close>

fun join :: "string \<Rightarrow> string list \<Rightarrow> string" where
  "join sep [] = []"
| "join sep [x] = x"
| "join sep (x # y # ys) = x @ sep @ join sep (y # ys)"

text \<open>A triple-quoted block of lines: every line is followed by a line break.\<close>

definition text_block :: "string list \<Rightarrow> string" where
  "text_block ls = concat (map (\<lambda>l. l @ ''\<newline>'') ls)"

subsection \<open>\<^verbatim>\<open>get_ai_feedback\<close>\<close>

definition feedback_system_prompt :: string where
  \<open>feedback_system_prompt = text_block
     ['''',
      ''You are a compassionate AI trained in CBT, Stoic philosophy, and emotional intelligence.'',
      ''The user will input a personal journal entry.'',
      '''',
      ''Your task:'',
      ''1. Detect their mood'',
      ''2. Analyze emotional clarity and articulation'',
      ''3. Offer 1 insight using CBT or Stoic wisdom'',
      ''4. Suggest 1 small action for tomorrow'',
      '''',
      ''Respond in this JSON format:'',
      ''{'',
      ''  "mood": "...",'',
      ''  "clarityScore": 0-10,'',
      ''  "summary": "...",'',
      ''  "insight": "...",'',
      ''  "suggestedAction": "..."'',
      ''}'']\<close>

definition get_ai_feedback :: "env \<Rightarrow> string \<Rightarrow> call list \<times> (error + string)" where
  "get_ai_feedback e journal_text =
     (let request = \<lparr>model = ''gpt-4'', temperature = 0.5, max_tokens = None,
                      messages = [(''system'', feedback_system_prompt),
                                  (''user'', journal_text)]\<rparr>
      in ([ChatCompletion request], chat e request))"

subsection \<open>\<^verbatim>\<open>store_journal_entry\<close>\<close>

text \<open>
  What the call reads from outside: \<open>random\<close>, the sixteen bytes that
  \<^verbatim>\<open>uuid.uuid4()\<close> gets from the operating system, and \<open>now\<close>, the clock reading
  \<^verbatim>\<open>int(time.time())\<close>.
\<close>

definition store_journal_entry ::
  "env \<Rightarrow> 128 word \<Rightarrow> int \<Rightarrow> point list \<Rightarrow> string \<Rightarrow> string \<Rightarrow> call list \<times> (error + string) \<times> point list" where
  "store_journal_entry e random now coll user_id journal_text =
     (let point_id = str_uuid (uuid4 random)
      in case add_texts e coll journal_text
                \<lparr>md_user_id = Some user_id, md_timestamp = Stored (SInt now),
                 md_type = Some ''journal''\<rparr> point_id of
           (cs, Inl err, coll') \<Rightarrow> (cs, Inl err, coll')
         | (cs, Inr _, coll') \<Rightarrow> (cs, Inr point_id, coll'))"

subsection \<open>\<^verbatim>\<open>get_relevant_entries\<close>\<close>

definition user_filter :: "string \<Rightarrow> qfilter" where
  "user_filter user_id = [(''metadata.user_id'', user_id), (''metadata.type'', ''journal'')]"

text \<open>
  The sort key of the fallback, \<^verbatim>\<open>x.payload.get('metadata', {}).get('timestamp', 0)\<close>: the
  default 0 stands in for an absent key only; a stored \<^verbatim>\<open>null\<close> is the key \<^verbatim>\<open>None\<close>.
\<close>

definition timestamp_key :: "point \<Rightarrow> scalar option" where
  "timestamp_key x =
     (case metadata x of
        None \<Rightarrow> Some (SInt 0)
      | Some m \<Rightarrow>
          (case md_timestamp m of
             Absent \<Rightarrow> Some (SInt 0)
           | Null \<Rightarrow> None
           | Stored v \<Rightarrow> Some v))"

text \<open>The truth value of \<^verbatim>\<open>entry.payload.get('page_content')\<close>.\<close>

definition has_text :: "point \<Rightarrow> bool" where
  "has_text entry = (case page_content entry of Stored t \<Rightarrow> t \<noteq> [] | _ \<Rightarrow> False)"

text \<open>\<^verbatim>\<open>entry.payload.get('page_content', '')\<close>, a string or \<^verbatim>\<open>None\<close>.\<close>

definition text_of :: "point \<Rightarrow> string option" where
  "text_of entry =
     (case page_content entry of Absent \<Rightarrow> Some [] | Null \<Rightarrow> None | Stored t \<Rightarrow> Some t)"

text \<open>
  The body of the \<^verbatim>\<open>except\<close> branch, after its \<^verbatim>\<open>print\<close> (console output is not
  part of the model): the sort may raise; the comprehension keeps the text of the entries
  that pass its test.
\<close>

definition recent_fallback :: "point list \<Rightarrow> int \<Rightarrow> error + string list" where
  "recent_fallback all_user_entries limit =
     (case sorted_reverse timestamp_key all_user_entries of
        Inl err \<Rightarrow> Inl err
      | Inr sorted_entries \<Rightarrow>
          (let recent_entries = slice_to limit sorted_entries
           in Inr (List.map_filter (\<lambda>entry. if has_text entry then text_of entry else None)
                     recent_entries)))"

definition get_relevant_entries ::
  "env \<Rightarrow> point list \<Rightarrow> string \<Rightarrow> string \<Rightarrow> int \<Rightarrow> call list \<times> (error + string list)" where
  "get_relevant_entries e coll user_id query limit =
     (case scroll e coll (user_filter user_id) 100 of
        (cs, Inl err) \<Rightarrow> (cs, Inl err)
      | (cs, Inr all_user_entries) \<Rightarrow>
          if all_user_entries = [] then (cs, Inr [])
          else
            (case similarity_search e coll query
                    (min limit (int (length all_user_entries)))
                    [(''user_id'', user_id), (''type'', ''journal'')] of
               (cs', Inr results) \<Rightarrow> (cs @ cs', Inr (map doc_page_content results))
             | (cs', Inl err) \<Rightarrow> (cs @ cs', recent_fallback all_user_entries limit)))"

subsection \<open>\<^verbatim>\<open>analyze_personality_and_respond\<close>\<close>

definition not_enough_entries :: string where
  "not_enough_entries =
     ''I don't have enough journal entries from you yet to provide personalized insights. Please write a few more journal entries first!''"

definition separator :: string where
  "separator = ''\<newline>\<newline>---\<newline>\<newline>''"

definition analysis_system_prompt :: "string \<Rightarrow> string" where
  "analysis_system_prompt journal_context =
     text_block
       ['''',
        ''You are an AI psychologist and behavioral analyst with expertise in personality psychology, CBT, and emotional intelligence.'',
        '''',
        ''You have access to the user's journal entries below. Based on these entries, you can understand their:'',
        ''- Personality patterns and traits'',
        ''- Emotional responses and triggers'',
        ''- Behavioral patterns'',
        ''- Coping mechanisms'',
        ''- Growth areas and strengths'',
        ''- Recurring themes in their life'',
        '''',
        ''JOURNAL ENTRIES:'']
     @ journal_context
     @ text_block
       ['''',
        '''',
        ''Now the user is asking you a question about themselves. Your task:'',
        ''1. Analyze their personality and behavioral patterns from the journal entries'',
        ''2. Identify relevant patterns that relate to their question'',
        ''3. Provide personalized insights and suggestions'',
        ''4. Be compassionate, specific, and actionable'',
        '''',
        ''Answer their question based on what you observe in their writing patterns and experiences.'']"

definition analyze_personality_and_respond ::
  "env \<Rightarrow> point list \<Rightarrow> string \<Rightarrow> string \<Rightarrow> call list \<times> (error + string)" where
  "analyze_personality_and_respond e coll user_id user_question =
     (case get_relevant_entries e coll user_id user_question 8 of
        (cs, Inl err) \<Rightarrow> (cs, Inl err)
      | (cs, Inr relevant_entries) \<Rightarrow>
          if relevant_entries = [] then (cs, Inr not_enough_entries)
          else
            (let journal_context = join separator relevant_entries;
                 request = \<lparr>model = ''gpt-4'', temperature = 0.7, max_tokens = Some 800,
                            messages = [(''system'', analysis_system_prompt journal_context),
                                        (''user'', user_question)]\<rparr>
             in (cs @ [ChatCompletion request], chat e request)))"

section \<open>Notions used in the properties\<close>

text \<open>The owner and the kind of an entry, and the journal entries a user owns.\<close>

definition user_of :: "point \<Rightarrow> string option" where
  "user_of p = (case metadata p of None \<Rightarrow> None | Some m \<Rightarrow> md_user_id m)"

definition kind_of :: "point \<Rightarrow> string option" where
  "kind_of p = (case metadata p of None \<Rightarrow> None | Some m \<Rightarrow> md_type m)"

definition owns :: "string \<Rightarrow> point \<Rightarrow> bool" where
  "owns u p = (user_of p = Some u \<and> kind_of p = Some ''journal'')"

definition entry_count :: "string \<Rightarrow> point list \<Rightarrow> nat" where
  "entry_count u coll = length (filter (owns u) coll)"

text \<open>The collection without anything stored under user \<open>v\<close>.\<close>

definition without_user :: "string \<Rightarrow> point list \<Rightarrow> point list" where
  "without_user v coll = filter (\<lambda>p. user_of p \<noteq> Some v) coll"

text \<open>
  The properties of the recency order are stated with notions of their own, written from
  the fields of a record and not from the functions of the program: the time an entry
  counts with (its integer timestamp, 0 when it has none), whether its timestamp is an
  integer or absent, whether it is absent, and the text an entry contributes (none when
  the text is absent, null or empty).
\<close>

definition recency :: "point \<Rightarrow> int" where
  "recency p =
     (case metadata p of
        None \<Rightarrow> 0
      | Some m \<Rightarrow> (case md_timestamp m of Stored (SInt t) \<Rightarrow> t | _ \<Rightarrow> 0))"

definition integer_timestamp :: "point \<Rightarrow> bool" where
  "integer_timestamp p =
     (case metadata p of
        None \<Rightarrow> True
      | Some m \<Rightarrow>
          (case md_timestamp m of Absent \<Rightarrow> True | Stored (SInt t) \<Rightarrow> True | _ \<Rightarrow> False))"

definition undated :: "point \<Rightarrow> bool" where
  "undated p = (case metadata p of None \<Rightarrow> True | Some m \<Rightarrow> md_timestamp m = Absent)"

text \<open>The text of an entry as a string, empty when it has none.\<close>

definition content_of :: "point \<Rightarrow> string" where
  "content_of p = (case page_content p of Stored t \<Rightarrow> t | _ \<Rightarrow> [])"

definition entry_text :: "point \<Rightarrow> string option" where
  "entry_text p =
     (case page_content p of
        Stored t \<Rightarrow> (if t = [] then None else Some t)
      | _ \<Rightarrow> None)"

text \<open>Most recent first, entries of equal time in the order of the scan.\<close>

definition by_recency :: "point list \<Rightarrow> point list" where
  "by_recency ps = rev (sort_key recency (rev ps))"

text \<open>
  Entries as the menu of the program composes them: non-empty lines joined by single line
  breaks, so no two line breaks in a row and none at the end.
\<close>

fun has_blank_line :: "string \<Rightarrow> bool" where
  "has_blank_line (a # b # cs) = ((a = CHR 0x0A \<and> b = CHR 0x0A) \<or> has_blank_line (b # cs))"
| "has_blank_line _ = False"

definition ends_with_newline :: "string \<Rightarrow> bool" where
  "ends_with_newline s = (s \<noteq> [] \<and> last s = CHR 0x0A)"

definition plain_entry :: "string \<Rightarrow> bool" where
  "plain_entry s = (\<not> has_blank_line s \<and> \<not> ends_with_newline s)"

subsection \<open>The structured feedback of the specification\<close>

text \<open>
  The specification promises a payload with the five fields \<open>mood\<close>, \<open>clarityScore\<close>
  (an integer from 0 to 10), \<open>summary\<close>, \<open>insight\<close> and \<open>suggestedAction\<close>, parsed from
  the generated text. The source has no such parser; \<open>spec_parse_feedback\<close> follows the
  specification's words, for the JSON format the prompt of the source asks for: one object
  with string and non-negative integer values.
\<close>

record feedback =
  mood :: string
  clarityScore :: int
  summary :: string
  insight :: string
  suggestedAction :: string

datatype jvalue = JString string | JNumber int

datatype token = LBrace | RBrace | Colon | Comma | TString string | TNumber int

datatype lexer = Idle | InString string bool | InNumber nat

definition is_space :: "char \<Rightarrow> bool" where
  "is_space c = (c \<in> set [CHR '' '', CHR 0x0A, CHR 0x09, CHR 0x0D])"

definition digit_of :: "char \<Rightarrow> nat option" where
  "digit_of c =
     map_of [(CHR ''0'', 0), (CHR ''1'', 1), (CHR ''2'', 2), (CHR ''3'', 3), (CHR ''4'', 4),
             (CHR ''5'', 5), (CHR ''6'', 6), (CHR ''7'', 7), (CHR ''8'', 8), (CHR ''9'', 9)] c"

definition cons_token :: "token \<Rightarrow> token list option \<Rightarrow> token list option" where
  "cons_token t r = map_option ((#) t) r"

definition in_number :: "lexer \<Rightarrow> nat" where
  "in_number l = (case l of InNumber _ \<Rightarrow> 1 | _ \<Rightarrow> 0)"

function (sequential) tokenize :: "lexer \<Rightarrow> string \<Rightarrow> token list option" where
  "tokenize Idle [] = Some []"
| "tokenize (InNumber n) [] = Some [TNumber (int n)]"
| "tokenize (InString s esc) [] = None"
| "tokenize Idle (c # cs) =
     (if is_space c then tokenize Idle cs
      else if c = CHR ''{'' then cons_token LBrace (tokenize Idle cs)
      else if c = CHR ''}'' then cons_token RBrace (tokenize Idle cs)
      else if c = CHR '':'' then cons_token Colon (tokenize Idle cs)
      else if c = CHR '','' then cons_token Comma (tokenize Idle cs)
      else if c = CHR 0x22 then tokenize (InString [] False) cs
      else (case digit_of c of
              Some d \<Rightarrow> tokenize (InNumber d) cs
            | None \<Rightarrow> None))"
| "tokenize (InString s True) (c # cs) = tokenize (InString (s @ [c]) False) cs"
| "tokenize (InString s False) (c # cs) =
     (if c = CHR 0x22 then cons_token (TString s) (tokenize Idle cs)
      else if c = CHR 0x5C then tokenize (InString s True) cs
      else tokenize (InString (s @ [c]) False) cs)"
| "tokenize (InNumber n) (c # cs) =
     (case digit_of c of
        Some d \<Rightarrow> tokenize (InNumber (10 * n + d)) cs
      | None \<Rightarrow> cons_token (TNumber (int n)) (tokenize Idle (c # cs)))"
  by pat_completeness auto
termination
  by (relation "measure (\<lambda>(l, cs). 2 * length cs + in_number l)") (auto simp: in_number_def)

fun jvalue_of :: "token \<Rightarrow> jvalue option" where
  "jvalue_of (TString s) = Some (JString s)"
| "jvalue_of (TNumber n) = Some (JNumber n)"
| "jvalue_of _ = None"

fun members :: "token list \<Rightarrow> (string \<times> jvalue) list option" where
  "members (TString k # Colon # v # RBrace # rest) =
     (if rest = [] then map_option (\<lambda>j. [(k, j)]) (jvalue_of v) else None)"
| "members (TString k # Colon # v # Comma # rest) =
     (case jvalue_of v of
        None \<Rightarrow> None
      | Some j \<Rightarrow> map_option ((#) (k, j)) (members rest))"
| "members _ = None"

definition parse_object :: "string \<Rightarrow> (string \<times> jvalue) list option" where
  "parse_object s =
     (case tokenize Idle s of
        Some (LBrace # ts) \<Rightarrow> (if ts = [RBrace] then Some [] else members ts)
      | _ \<Rightarrow> None)"

definition string_field :: "(string \<times> jvalue) list \<Rightarrow> string \<Rightarrow> string option" where
  "string_field kvs k =
     (case map_of kvs k of
        Some (JString s) \<Rightarrow> (if s = [] then None else Some s)
      | _ \<Rightarrow> None)"

definition score_field :: "(string \<times> jvalue) list \<Rightarrow> string \<Rightarrow> int option" where
  "score_field kvs k =
     (case map_of kvs k of
        Some (JNumber n) \<Rightarrow> (if 0 \<le> n \<and> n \<le> 10 then Some n else None)
      | _ \<Rightarrow> None)"

definition spec_parse_feedback :: "string \<Rightarrow> feedback option" where
  "spec_parse_feedback s =
     (case parse_object s of
        None \<Rightarrow> None
      | Some kvs \<Rightarrow>
          (case (string_field kvs ''mood'', score_field kvs ''clarityScore'',
                 string_field kvs ''summary'', string_field kvs ''insight'',
                 string_field kvs ''suggestedAction'') of
             (Some m, Some c, Some su, Some i, Some a) \<Rightarrow>
               if length kvs = 5
               then Some \<lparr>mood = m, clarityScore = c, summary = su, insight = i,
                          suggestedAction = a\<rparr>
               else None
           | _ \<Rightarrow> None))"

section \<open>Example stores and collaborators\<close>

text \<open>The scenario of the specification: two entries of \<open>u1\<close>, one of \<open>u2\<close>.\<close>

definition anxious_entry :: point where
  "anxious_entry =
     \<lparr>point_id = ''00000000-0000-4000-8000-0000000000a1'', vector = [1, 0],
      page_content = Stored ''I felt anxious before my presentation'',
      metadata = Some \<lparr>md_user_id = Some ''u1'', md_timestamp = Stored (SInt 100),
                       md_type = Some ''journal''\<rparr>\<rparr>"

definition walk_entry :: point where
  "walk_entry =
     \<lparr>point_id = ''00000000-0000-4000-8000-0000000000a2'', vector = [0, 1],
      page_content = Stored ''I went for a calm walk by the lake'',
      metadata = Some \<lparr>md_user_id = Some ''u1'', md_timestamp = Stored (SInt 200),
                       md_type = Some ''journal''\<rparr>\<rparr>"

definition furious_entry :: point where
  "furious_entry =
     \<lparr>point_id = ''00000000-0000-4000-8000-0000000000a3'', vector = [1, 1],
      page_content = Stored ''I am furious about my coworker.'',
      metadata = Some \<lparr>md_user_id = Some ''u2'', md_timestamp = Stored (SInt 150),
                       md_type = Some ''journal''\<rparr>\<rparr>"

definition scenario_store :: "point list" where
  "scenario_store = [anxious_entry, walk_entry, furious_entry]"

text \<open>A journal entry with the vector \<open>[0, 1]\<close>, given its id, user, timestamp and text.\<close>

definition journal_point :: "string \<Rightarrow> string \<Rightarrow> scalar field \<Rightarrow> string field \<Rightarrow> point" where
  "journal_point pid u ts txt =
     \<lparr>point_id = pid, vector = [0, 1], page_content = txt,
      metadata = Some \<lparr>md_user_id = Some u, md_timestamp = ts, md_type = Some ''journal''\<rparr>\<rparr>"

text \<open>Three entries at t = 100, 200, 300.\<close>

definition three_store :: "point list" where
  "three_store =
     [journal_point ''00000000-0000-4000-8000-0000000000b1'' ''u1'' (Stored (SInt 100))
        (Stored ''first''),
      journal_point ''00000000-0000-4000-8000-0000000000b2'' ''u1'' (Stored (SInt 200))
        (Stored ''second''),
      journal_point ''00000000-0000-4000-8000-0000000000b3'' ''u1'' (Stored (SInt 300))
        (Stored ''third'')]"

text \<open>Two entries, the second with the timestamp \<^verbatim>\<open>null\<close>.\<close>

definition null_timestamp_store :: "point list" where
  "null_timestamp_store =
     [journal_point ''00000000-0000-4000-8000-0000000000c1'' ''u1'' (Stored (SInt 100))
        (Stored ''first''),
      journal_point ''00000000-0000-4000-8000-0000000000c2'' ''u1'' Null (Stored ''second'')]"

text \<open>An entry without timestamp, and the same entry next to one from before 1970.\<close>

definition undated_entry :: point where
  "undated_entry =
     journal_point ''00000000-0000-4000-8000-0000000000d1'' ''u1'' Absent (Stored ''undated'')"

definition old_entry :: point where
  "old_entry =
     journal_point ''00000000-0000-4000-8000-0000000000d2'' ''u1'' (Stored (SInt (- 5)))
       (Stored ''old'')"

definition negative_store :: "point list" where
  "negative_store = [undated_entry, old_entry]"

text \<open>
  A store whose most recent entry has an empty text, with entries of positive, absent and
  negative timestamp and texts that are empty, absent and null.
\<close>

definition blank_entry :: point where
  "blank_entry =
     journal_point ''00000000-0000-4000-8000-0000000000e1'' ''u1'' (Stored (SInt 300)) (Stored [])"

definition second_entry :: point where
  "second_entry =
     journal_point ''00000000-0000-4000-8000-0000000000e2'' ''u1'' (Stored (SInt 200))
       (Stored ''second'')"

definition textless_entry :: point where
  "textless_entry =
     journal_point ''00000000-0000-4000-8000-0000000000e3'' ''u1'' (Stored (SInt 100)) Absent"

definition null_text_entry :: point where
  "null_text_entry =
     journal_point ''00000000-0000-4000-8000-0000000000e4'' ''u1'' (Stored (SInt 50)) Null"

definition mixed_store :: "point list" where
  "mixed_store =
     [undated_entry, textless_entry, old_entry, blank_entry, null_text_entry, second_entry]"

definition dot :: "real list \<Rightarrow> real list \<Rightarrow> real" where
  "dot a b = sum_list (map2 (*) a b)"

definition healthy_env :: env where
  "healthy_env =
     \<lparr>embed = (\<lambda>_. Inr [0, 1]), scroll_fault = None, search_fault = (\<lambda>_ _. None),
      upsert_fault = None, cosine = dot, chat = (\<lambda>_. Inr ''You seem calm.'')\<rparr>"

definition search_down_env :: env where
  "search_down_env = healthy_env\<lparr>search_fault := (\<lambda>_ _. Some IndexError)\<rparr>"

definition embed_down_env :: env where
  "embed_down_env = healthy_env\<lparr>embed := (\<lambda>_. Inl EmbeddingError)\<rparr>"

definition chatty_env :: env where
  "chatty_env = healthy_env\<lparr>chat := (\<lambda>_. Inr ''I am sorry you feel that way.'')\<rparr>"

definition good_reply :: string where
  \<open>good_reply = ''{ "mood": "tired", "clarityScore": 7, "summary": "A long day.", "insight": "Effort teaches.", "suggestedAction": "Sleep early." }''\<close>

section \<open>Properties\<close>

subsection \<open>The filters, the scan and the similarity search\<close>

lemma matches_user_filter: "matches (user_filter u) = owns u"
  by (rule ext)
     (simp add: matches_def user_filter_def payload_lookup_def owns_def user_of_def kind_of_def)

lemma qdrant_filter_user:
  "qdrant_filter [(''user_id'', u), (''type'', ''journal'')] = user_filter u"
  by (simp add: qdrant_filter_def user_filter_def)

lemma scroll_user:
  "scroll e coll (user_filter u) cap =
     ([QdrantScroll (user_filter u) cap],
      case scroll_fault e of Some err \<Rightarrow> Inl err
      | None \<Rightarrow> Inr (take cap (filter (owns u) coll)))"
  by (simp add: scroll_def matches_user_filter split: option.split)

lemma documents_texts:
  "documents ps = Inr ds \<Longrightarrow> map doc_page_content ds = map content_of ps"
  by (induction ps arbitrary: ds)
     (auto simp: document_text_def content_of_def split: field.splits sum.splits)

lemma documents_not_null:
  "documents ps = Inr ds \<Longrightarrow> p \<in> set ps \<Longrightarrow> page_content p \<noteq> Null"
  by (induction ps arbitrary: ds)
     (auto simp: document_text_def split: field.splits sum.splits)

lemma documents_length:
  "documents ps = Inr ds \<Longrightarrow> length ds = length ps"
  by (drule documents_texts, drule arg_cong [where f = length]) simp

lemma documents_source:
  assumes "documents ps = Inr ds" "t \<in> set (map doc_page_content ds)"
  shows "\<exists>p\<in>set ps. page_content p = Stored t \<or> page_content p = Absent \<and> t = []"
proof -
  from assms have "t \<in> set (map content_of ps)" by (simp only: documents_texts)
  then obtain p where p: "p \<in> set ps" "t = content_of p" by auto
  from documents_not_null [OF assms(1) p(1)] p(2)
  have "page_content p = Stored t \<or> page_content p = Absent \<and> t = []"
    by (cases "page_content p") (simp_all add: content_of_def)
  with p(1) show ?thesis by blast
qed

lemma similarity_search_Inr:
  assumes "similarity_search e coll query k [(''user_id'', u), (''type'', ''journal'')] = (cs, Inr ds)"
  shows "\<exists>qv. embed e query = Inr qv \<and>
           documents (take (nat k) (sort_key (\<lambda>p. - cosine e qv (vector p))
              (filter (owns u) coll))) = Inr ds"
  using assms
  by (auto simp: similarity_search_def qdrant_filter_user matches_user_filter
           split: sum.splits option.splits)

lemma similarity_search_restrict:
  "similarity_search e (filter (owns u) coll) query k [(''user_id'', u), (''type'', ''journal'')]
   = similarity_search e coll query k [(''user_id'', u), (''type'', ''journal'')]"
  by (simp add: similarity_search_def qdrant_filter_user matches_user_filter
        split: sum.split option.split)

lemma similarity_search_length:
  assumes "similarity_search e coll query k [(''user_id'', u), (''type'', ''journal'')] = (cs, Inr ds)"
  shows "length ds \<le> nat k \<and> length ds \<le> length (filter (owns u) coll)"
proof -
  from similarity_search_Inr [OF assms] obtain qv where
    "documents (take (nat k) (sort_key (\<lambda>p. - cosine e qv (vector p))
        (filter (owns u) coll))) = Inr ds"
    by auto
  from documents_length [OF this] show ?thesis by simp
qed

lemma similarity_search_calls:
  "fst (similarity_search e coll query k flt) = [EmbedQuery query] \<or>
   fst (similarity_search e coll query k flt) = [EmbedQuery query, QdrantSearch (qdrant_filter flt) k]"
  by (simp add: similarity_search_def split: sum.split)

lemma similarity_search_first_call:
  "\<exists>cs. fst (similarity_search e coll query k flt) = EmbedQuery query # cs"
  by (simp add: similarity_search_def split: sum.split)

lemma similarity_search_zero_result:
  "similarity_search e coll query 0 flt = (cs, Inr ds) \<Longrightarrow> ds = []"
  by (auto simp: similarity_search_def split: sum.splits option.splits)

subsection \<open>The recency fallback\<close>

lemma set_slice_to: "set (slice_to n xs) \<subseteq> set xs"
  by (simp add: slice_to_def set_take_subset)

lemma length_slice_to: "0 \<le> n \<Longrightarrow> length (slice_to n xs) \<le> nat n"
  by (simp add: slice_to_def)

lemma length_slice_to_le: "length (slice_to n xs) \<le> length xs"
  by (auto simp: slice_to_def)

lemma is_int_timestamp_key: "is_int (timestamp_key p) = integer_timestamp p"
  by (simp add: timestamp_key_def integer_timestamp_def
      split: option.split field.split scalar.split)

lemma int_of_timestamp_key: "int_of (timestamp_key p) = recency p"
  by (simp add: timestamp_key_def recency_def split: option.split field.split scalar.split)

lemma comprehension_entry_text:
  "(\<lambda>entry. if has_text entry then text_of entry else None) = entry_text"
  by (rule ext) (simp add: has_text_def text_of_def entry_text_def split: field.split)

lemma by_recency_short: "length xs \<le> 1 \<Longrightarrow> by_recency xs = xs"
  by (cases xs) (simp_all add: by_recency_def)

lemma sorted_reverse_integer:
  assumes "list_all integer_timestamp xs"
  shows "sorted_reverse timestamp_key xs = Inr (by_recency xs)"
proof (cases "length xs \<le> 1")
  case True
  then show ?thesis by (simp add: sorted_reverse_def by_recency_short)
next
  case False
  have "(\<lambda>x. int_of (timestamp_key x)) = recency" by (rule ext) (rule int_of_timestamp_key)
  with False assms show ?thesis
    by (simp add: sorted_reverse_def is_int_timestamp_key by_recency_def)
qed

lemma sorted_reverse_mset: "sorted_reverse key xs = Inr ys \<Longrightarrow> mset ys = mset xs"
  by (auto simp: sorted_reverse_def split: if_splits)

lemma sorted_reverse_set: "sorted_reverse key xs = Inr ys \<Longrightarrow> set ys = set xs"
  by (drule sorted_reverse_mset) (rule mset_eq_setD)

lemma sorted_reverse_length: "sorted_reverse key xs = Inr ys \<Longrightarrow> length ys = length xs"
  by (drule sorted_reverse_mset) (rule mset_eq_length)

lemma recent_fallback_unfold:
  "recent_fallback entries limit =
     (case sorted_reverse timestamp_key entries of
        Inl err \<Rightarrow> Inl err
      | Inr sorted_entries \<Rightarrow> Inr (List.map_filter entry_text (slice_to limit sorted_entries)))"
  by (simp add: recent_fallback_def comprehension_entry_text split: sum.split)

lemma recent_fallback_integer:
  "list_all integer_timestamp entries \<Longrightarrow>
     recent_fallback entries limit =
       Inr (List.map_filter entry_text (slice_to limit (by_recency entries)))"
  by (simp add: recent_fallback_unfold sorted_reverse_integer)

lemma map_filter_source: "t \<in> set (List.map_filter f xs) \<Longrightarrow> \<exists>x\<in>set xs. f x = Some t"
  by (induction xs) (auto split: option.splits)

lemma length_map_filter: "length (List.map_filter f xs) \<le> length xs"
  by (induction xs) (auto split: option.splits)

lemma length_map_filter_eq:
  "length (List.map_filter f xs) = length (filter (\<lambda>x. f x \<noteq> None) xs)"
  by (simp add: map_filter_def)

lemma entry_text_Some: "entry_text p = Some t \<Longrightarrow> page_content p = Stored t \<and> t \<noteq> []"
  by (auto simp: entry_text_def split: field.splits if_splits)

lemma recent_fallback_source:
  assumes "recent_fallback entries limit = Inr ts" "t \<in> set ts"
  shows "\<exists>p\<in>set entries. page_content p = Stored t"
proof -
  from assms(1) obtain s where s: "sorted_reverse timestamp_key entries = Inr s"
    "ts = List.map_filter entry_text (slice_to limit s)"
    by (auto simp: recent_fallback_unfold split: sum.splits)
  from assms(2) s(2) have "t \<in> set (List.map_filter entry_text (slice_to limit s))" by simp
  from map_filter_source [OF this] obtain p where
    p: "p \<in> set (slice_to limit s)" "entry_text p = Some t" by blast
  from p(1) have "p \<in> set s" using set_slice_to [of limit s] by (rule subsetD [rotated])
  with sorted_reverse_set [OF s(1)] have "p \<in> set entries" by simp
  with entry_text_Some [OF p(2)] show ?thesis by blast
qed

lemma recent_fallback_length:
  assumes "0 \<le> limit" "recent_fallback entries limit = Inr ts"
  shows "length ts \<le> nat limit \<and> length ts \<le> length entries"
proof -
  from assms(2) obtain s where s: "sorted_reverse timestamp_key entries = Inr s"
    "ts = List.map_filter entry_text (slice_to limit s)"
    by (auto simp: recent_fallback_unfold split: sum.splits)
  have "length ts \<le> length (slice_to limit s)" unfolding s(2) by (rule length_map_filter)
  moreover have "length (slice_to limit s) \<le> nat limit" using assms(1) by (rule length_slice_to)
  moreover have "length (slice_to limit s) \<le> length s" by (rule length_slice_to_le)
  moreover have "length s = length entries" using s(1) by (rule sorted_reverse_length)
  ultimately show ?thesis by linarith
qed

lemma recent_fallback_zero: "recent_fallback entries 0 = Inr ts \<Longrightarrow> ts = []"
  by (auto simp: recent_fallback_unfold slice_to_def split: sum.splits)

lemma by_recency_descending:
  "sorted_wrt (\<lambda>a b. recency b \<le> recency a) (by_recency entries)"
proof -
  have "sorted (map recency (sort_key recency (rev entries)))" by (rule sorted_sort_key)
  then have "sorted_wrt (\<lambda>a b. recency a \<le> recency b) (sort_key recency (rev entries))"
    by (simp add: sorted_map)
  then show ?thesis by (simp add: by_recency_def sorted_wrt_rev)
qed

lemma by_recency_stable:
  "filter (\<lambda>y. recency y = k) (by_recency entries) = filter (\<lambda>y. recency y = k) entries"
proof -
  have "filter (\<lambda>y. recency y = k) (sort_key recency (rev entries)) =
        filter (\<lambda>y. recency y = k) (rev entries)"
    by (rule sort_key_stable)
  then have "rev (filter (\<lambda>y. recency y = k) (sort_key recency (rev entries))) =
        filter (\<lambda>y. recency y = k) entries"
    by (simp add: rev_filter)
  then show ?thesis by (simp add: by_recency_def rev_filter)
qed

lemma by_recency_mset: "mset (by_recency entries) = mset entries"
  by (simp add: by_recency_def)

lemma by_recency_set: "set (by_recency entries) = set entries"
  by (simp add: by_recency_def)

subsection \<open>The retrieval as a whole\<close>

lemma get_relevant_entries_unfold:
  "get_relevant_entries e coll u query limit =
     (case scroll_fault e of
        Some err \<Rightarrow> ([QdrantScroll (user_filter u) 100], Inl err)
      | None \<Rightarrow>
          (let entries = take 100 (filter (owns u) coll) in
           if entries = [] then ([QdrantScroll (user_filter u) 100], Inr [])
           else
             (case similarity_search e coll query (min limit (int (length entries)))
                     [(''user_id'', u), (''type'', ''journal'')] of
                (cs', Inr results) \<Rightarrow>
                  (QdrantScroll (user_filter u) 100 # cs', Inr (map doc_page_content results))
              | (cs', Inl err) \<Rightarrow>
                  (QdrantScroll (user_filter u) 100 # cs', recent_fallback entries limit))))"
  by (simp add: get_relevant_entries_def scroll_user Let_def split: option.split)

lemma get_relevant_entries_restrict:
  "get_relevant_entries e (filter (owns u) coll) u query limit =
   get_relevant_entries e coll u query limit"
  by (simp add: get_relevant_entries_unfold similarity_search_restrict Let_def
        split: option.split)

lemma filter_owns_others:
  "u \<noteq> v \<Longrightarrow> filter (owns u) (without_user v coll) = filter (owns u) coll"
  unfolding without_user_def by (induction coll) (auto simp: owns_def)

lemma get_relevant_entries_source:
  assumes "snd (get_relevant_entries e coll u query limit) = Inr texts" "t \<in> set texts"
  shows "\<exists>p\<in>set coll. owns u p \<and>
           (page_content p = Stored t \<or> page_content p = Absent \<and> t = [])"
proof (cases "scroll_fault e")
  case (Some err)
  with assms show ?thesis by (simp add: get_relevant_entries_unfold)
next
  case None
  let ?entries = "take 100 (filter (owns u) coll)"
  have sub: "set ?entries \<subseteq> {p \<in> set coll. owns u p}"
    using set_take_subset [of 100 "filter (owns u) coll"] by auto
  show ?thesis
  proof (cases "?entries = []")
    case True
    with None assms show ?thesis by (simp add: get_relevant_entries_unfold)
  next
    case False
    obtain cs r where ss: "similarity_search e coll query (min limit (int (length ?entries)))
        [(''user_id'', u), (''type'', ''journal'')] = (cs, r)"
      by (cases "similarity_search e coll query (min limit (int (length ?entries)))
        [(''user_id'', u), (''type'', ''journal'')]")
    show ?thesis
    proof (cases r)
      case (Inl err)
      with None False ss assms have "recent_fallback ?entries limit = Inr texts"
        by (simp add: get_relevant_entries_unfold Let_def)
      from recent_fallback_source [OF this assms(2)] sub show ?thesis by auto
    next
      case (Inr ds)
      with None False ss assms have ds: "map doc_page_content ds = texts"
        by (simp add: get_relevant_entries_unfold Let_def)
      from ss Inr similarity_search_Inr [of e coll query _ u cs ds]
      obtain qv where "documents (take (nat (min limit (int (length ?entries))))
          (sort_key (\<lambda>p. - cosine e qv (vector p)) (filter (owns u) coll))) = Inr ds"
        by auto
      from documents_source [OF this] assms(2) ds obtain p where
        "p \<in> set (take (nat (min limit (int (length ?entries))))
          (sort_key (\<lambda>p. - cosine e qv (vector p)) (filter (owns u) coll)))"
        "page_content p = Stored t \<or> page_content p = Absent \<and> t = []" by auto
      moreover from this(1) have "p \<in> set (filter (owns u) coll)"
        by (auto dest: in_set_takeD)
      ultimately show ?thesis by auto
    qed
  qed
qed

lemma get_relevant_entries_calls:
  "c \<in> set (fst (get_relevant_entries e coll u query limit)) \<Longrightarrow>
     c = QdrantScroll (user_filter u) 100 \<or> c = EmbedQuery query \<or>
     (\<exists>k. c = QdrantSearch (user_filter u) k)"
  using similarity_search_calls [of e coll query
      "min limit (int (length (take 100 (filter (owns u) coll))))"
      "[(''user_id'', u), (''type'', ''journal'')]"]
  by (auto simp: get_relevant_entries_unfold Let_def qdrant_filter_user
      split: option.splits if_splits prod.splits sum.splits)

lemma get_relevant_entries_no_completion:
  "ChatCompletion r \<notin> set (fst (get_relevant_entries e coll u query limit))"
  using get_relevant_entries_calls [of "ChatCompletion r" e coll u query limit] by auto

text \<open>The fallback path as a whole, for entries with integer or absent timestamps.\<close>

lemma fallback_path:
  assumes "scroll_fault e = None"
    and "filter (owns u) coll \<noteq> []"
    and "snd (similarity_search e coll query
               (min limit (int (length (take 100 (filter (owns u) coll)))))
               [(''user_id'', u), (''type'', ''journal'')]) = Inl err"
  shows "snd (get_relevant_entries e coll u query limit) =
           recent_fallback (take 100 (filter (owns u) coll)) limit"
  using assms
  by (cases "similarity_search e coll query
               (min limit (int (length (take 100 (filter (owns u) coll)))))
               [(''user_id'', u), (''type'', ''journal'')]")
     (simp add: get_relevant_entries_unfold Let_def)

subsection \<open>The example stores\<close>

lemma owns_scenario:
  "owns u anxious_entry = (u = ''u1'')" "owns u walk_entry = (u = ''u1'')"
  "owns u furious_entry = (u = ''u2'')"
  by (auto simp: owns_def user_of_def kind_of_def anxious_entry_def walk_entry_def
      furious_entry_def)

lemma owns_journal_point [simp]: "owns u (journal_point pid u' ts txt) = (u' = u)"
  by (auto simp: owns_def user_of_def kind_of_def journal_point_def)

lemma timestamp_key_journal_point [simp]:
  "timestamp_key (journal_point pid u ts txt) =
     (case ts of Absent \<Rightarrow> Some (SInt 0) | Null \<Rightarrow> None | Stored v \<Rightarrow> Some v)"
  by (simp add: timestamp_key_def journal_point_def)

lemma recency_journal_point [simp]:
  "recency (journal_point pid u ts txt) = (case ts of Stored (SInt t) \<Rightarrow> t | _ \<Rightarrow> 0)"
  by (simp add: recency_def journal_point_def)

lemma integer_timestamp_journal_point [simp]:
  "integer_timestamp (journal_point pid u ts txt) =
     (case ts of Absent \<Rightarrow> True | Stored (SInt t) \<Rightarrow> True | _ \<Rightarrow> False)"
  by (simp add: integer_timestamp_def journal_point_def)

lemma entry_text_journal_point [simp]:
  "entry_text (journal_point pid u ts txt) =
     (case txt of Stored t \<Rightarrow> (if t = [] then None else Some t) | _ \<Rightarrow> None)"
  by (simp add: entry_text_def journal_point_def)

lemma scenario_semantic_search:
  "get_relevant_entries healthy_env scenario_store ''u1'' ''Tell me about moments of calm'' 5
   = ([QdrantScroll (user_filter ''u1'') 100, EmbedQuery ''Tell me about moments of calm'',
       QdrantSearch (user_filter ''u1'') 2],
      Inr [''I went for a calm walk by the lake'', ''I felt anxious before my presentation''])"
  apply (simp add: get_relevant_entries_unfold healthy_env_def scenario_store_def owns_scenario
     similarity_search_def qdrant_filter_user matches_user_filter dot_def)
  apply (simp add: anxious_entry_def walk_entry_def document_text_def)
  done

lemma three_store_fallback:
  "recent_fallback (take 100 (filter (owns ''u1'') three_store)) 2 = Inr [''third'', ''second'']"
  by (simp add: three_store_def recent_fallback_integer by_recency_def slice_to_def)

lemma null_fallback:
  "recent_fallback (take 100 (filter (owns ''u1'') null_timestamp_store)) 5 = Inl TypeError"
  by (simp add: null_timestamp_store_def recent_fallback_def sorted_reverse_def)

lemma mixed_fallback:
  "recent_fallback (take 100 (filter (owns ''u1'') mixed_store)) 2 = Inr [''second'']"
  by (simp add: mixed_store_def undated_entry_def textless_entry_def old_entry_def blank_entry_def
      null_text_entry_def second_entry_def recent_fallback_integer by_recency_def slice_to_def)

lemma mixed_order:
  "by_recency mixed_store =
     [blank_entry, second_entry, textless_entry, null_text_entry, undated_entry, old_entry]"
  by (simp add: mixed_store_def undated_entry_def textless_entry_def old_entry_def blank_entry_def
      null_text_entry_def second_entry_def by_recency_def)

lemma recent_fallback_take:
  "list_all integer_timestamp entries \<Longrightarrow> 0 \<le> limit \<Longrightarrow>
     recent_fallback entries limit =
       Inr (List.map_filter entry_text (take (nat limit) (by_recency entries)))"
  by (simp add: recent_fallback_integer slice_to_def)

lemma undated_recency: "undated p \<Longrightarrow> recency p = 0"
  by (simp add: undated_def recency_def split: option.splits)

lemma descending_nth:
  assumes "sorted_wrt (\<lambda>a b. f b \<le> f a) xs" "i < length xs" "j < length xs"
    and "(f (xs ! i) :: int) < f (xs ! j)"
  shows "j < i"
proof (rule ccontr)
  assume "\<not> j < i"
  then have "i \<le> j" by simp
  moreover from assms(4) have "i \<noteq> j" by auto
  ultimately have "i < j" by simp
  from sorted_wrt_nth_less [OF assms(1) this assms(3)] have "f (xs ! j) \<le> f (xs ! i)" .
  with assms(4) show False by simp
qed

lemma filter_take_drop: "filter P xs = filter P (take n xs) @ filter P (drop n xs)"
proof -
  have "filter P (take n xs @ drop n xs) = filter P (take n xs) @ filter P (drop n xs)"
    by (rule filter_append)
  then show ?thesis by (simp only: append_take_drop_id)
qed

lemma length_filter_take: "length (filter P (take n xs)) \<le> length (filter P xs)"
proof -
  have "length (filter P xs) = length (filter P (take n xs)) + length (filter P (drop n xs))"
    using filter_take_drop [of P xs n, THEN arg_cong, of length] by (simp only: length_append)
  then show ?thesis by simp
qed

lemma filter_less_take:
  assumes "x \<in> set (drop n xs)" "P x"
  shows "length (filter P (take n xs)) < length (filter P xs)"
proof -
  have l: "length (filter P xs) = length (filter P (take n xs)) + length (filter P (drop n xs))"
    using filter_take_drop [of P xs n, THEN arg_cong, of length] by (simp only: length_append)
  from assms have "x \<in> set (filter P (drop n xs))" by simp
  then have "0 < length (filter P (drop n xs))" by (rule length_pos_if_in_set)
  with l show ?thesis by simp
qed

lemma filter_less_length:
  assumes "x \<in> set xs" "\<not> P x"
  shows "length (filter P xs) < length xs"
  using assms by (rule length_filter_less)

lemma good_reply_parses:
  "spec_parse_feedback good_reply =
     Some \<lparr>mood = ''tired'', clarityScore = 7, summary = ''A long day.'',
           insight = ''Effort teaches.'', suggestedAction = ''Sleep early.''\<rparr>"
  by (simp add: good_reply_def spec_parse_feedback_def parse_object_def is_space_def
      digit_of_def cons_token_def string_field_def score_field_def)

subsection \<open>Retrieval: isolation between users\<close>

text \<open>
  Claim C1. For users \<open>u \<noteq> v\<close>, every query and every limit, what
  \<open>get_relevant_entries\<close> returns for \<open>u\<close> never comes from an entry stored under \<open>v\<close>:
  every returned text is the text of a journal entry that \<open>u\<close> owns (the empty text for an
  entry without a text field, which is what the document wrapper of the similarity search
  reads there), and the whole outcome (calls and texts, or the error) is the same as on the
  collection with everything stored under \<open>v\<close> removed. Both paths select by user and kind
  before they rank or truncate: the fallback works on the scanned entries of \<open>u\<close>, the
  similarity search is given the same filter.
\<close>

theorem search_user_isolation:
  assumes "u \<noteq> v"
  shows "get_relevant_entries e (without_user v coll) u query limit
           = get_relevant_entries e coll u query limit
         \<and> (\<forall>texts. snd (get_relevant_entries e coll u query limit) = Inr texts \<longrightarrow>
              (\<forall>t\<in>set texts. \<exists>p\<in>set coll.
                  (page_content p = Stored t \<or> page_content p = Absent \<and> t = [])
                  \<and> owns u p \<and> user_of p \<noteq> Some v))"
proof (intro conjI allI impI ballI)
  have "get_relevant_entries e (without_user v coll) u query limit
        = get_relevant_entries e (filter (owns u) (without_user v coll)) u query limit"
    by (simp only: get_relevant_entries_restrict)
  also have "\<dots> = get_relevant_entries e (filter (owns u) coll) u query limit"
    by (simp only: filter_owns_others [OF assms])
  also have "\<dots> = get_relevant_entries e coll u query limit"
    by (simp only: get_relevant_entries_restrict)
  finally show "get_relevant_entries e (without_user v coll) u query limit
           = get_relevant_entries e coll u query limit" .
next
  fix texts t
  assume "snd (get_relevant_entries e coll u query limit) = Inr texts" "t \<in> set texts"
  from get_relevant_entries_source [OF this] obtain p where
    "p \<in> set coll" "page_content p = Stored t \<or> page_content p = Absent \<and> t = []" "owns u p"
    by auto
  moreover from \<open>owns u p\<close> assms have "user_of p \<noteq> Some v" by (simp add: owns_def)
  ultimately show "\<exists>p\<in>set coll.
      (page_content p = Stored t \<or> page_content p = Absent \<and> t = [])
      \<and> owns u p \<and> user_of p \<noteq> Some v"
    by auto
qed

text \<open>
  The scenario of the specification: \<open>u1\<close> asks about moments of calm and gets the two
  entries of \<open>u1\<close>, with or without the entry of \<open>u2\<close> in the collection.
\<close>

theorem search_user_isolation_witness:
  "''u1'' \<noteq> ''u2''
   \<and> without_user ''u2'' scenario_store = [anxious_entry, walk_entry]
   \<and> get_relevant_entries healthy_env (without_user ''u2'' scenario_store) ''u1''
        ''Tell me about moments of calm'' 5
      = get_relevant_entries healthy_env scenario_store ''u1'' ''Tell me about moments of calm'' 5
   \<and> snd (get_relevant_entries healthy_env scenario_store ''u1''
        ''Tell me about moments of calm'' 5)
      = Inr [''I went for a calm walk by the lake'', ''I felt anxious before my presentation'']
   \<and> list_all (owns ''u1'') [walk_entry, anxious_entry]"
proof -
  have h: "''u1'' \<noteq> ''u2''" by simp
  have w: "without_user ''u2'' scenario_store = [anxious_entry, walk_entry]"
    by (simp add: without_user_def scenario_store_def user_of_def anxious_entry_def
        walk_entry_def furious_entry_def)
  have g: "snd (get_relevant_entries healthy_env scenario_store ''u1''
        ''Tell me about moments of calm'' 5)
      = Inr [''I went for a calm walk by the lake'', ''I felt anxious before my presentation'']"
    by (simp add: scenario_semantic_search)
  from search_user_isolation [OF h, of healthy_env scenario_store
      "''Tell me about moments of calm''" 5] w g
  show ?thesis by (simp add: owns_scenario)
qed

subsection \<open>Retrieval: the recency fallback\<close>

text \<open>
  Claim C2 says that the fallback branch never raises. The branch sorts the scanned entries
  by the value stored under \<^verbatim>\<open>timestamp\<close>, and the default 0 of \<^verbatim>\<open>.get('timestamp', 0)\<close>
  only covers an absent key: with two entries of \<open>u1\<close>, one of them with the timestamp
  \<^verbatim>\<open>null\<close>, and a failing index search, \<^verbatim>\<open>sorted\<close> compares \<^verbatim>\<open>None\<close> with an integer
  and the \<^verbatim>\<open>TypeError\<close> raised inside the handler reaches the caller.
\<close>

theorem fallback_null_timestamp_counterexample:
  "get_relevant_entries search_down_env null_timestamp_store ''u1'' ''anything'' 5 =
     ([QdrantScroll (user_filter ''u1'') 100, EmbedQuery ''anything'',
       QdrantSearch (user_filter ''u1'') 2], Inl TypeError)"
  by (simp add: get_relevant_entries_unfold search_down_env_def healthy_env_def
      null_timestamp_store_def similarity_search_def qdrant_filter_user recent_fallback_def
      sorted_reverse_def)

text \<open>
  Claim C2, amended. When the scan of step 1 returned at least one entry, every scanned
  entry has an integer timestamp or none, and the similarity search raises any error,
  \<open>get_relevant_entries\<close> does not raise: after the calls of the scan and of the failed
  search it returns texts, and for a limit \<open>\<ge> 0\<close> these are the texts of the first
  \<open>limit\<close> entries in the order of recency, the entries whose text is absent,
  \<^verbatim>\<open>null\<close> or empty left out. The order of recency is a stable descending sort of exactly
  the scanned entries by their timestamp (0 for an entry without one).
\<close>

theorem fallback_on_search_error:
  assumes "scroll e coll (user_filter u) 100 = (cs, Inr entries)" and "entries \<noteq> []"
    and "similarity_search e coll query (min limit (int (length entries)))
           [(''user_id'', u), (''type'', ''journal'')] = (cs', Inl err)"
    and "list_all integer_timestamp entries"
  shows "(\<exists>texts. get_relevant_entries e coll u query limit = (cs @ cs', Inr texts)
            \<and> (0 \<le> limit \<longrightarrow>
                 texts = List.map_filter entry_text (take (nat limit) (by_recency entries))))
       \<and> sorted_wrt (\<lambda>a b. recency b \<le> recency a) (by_recency entries)
       \<and> mset (by_recency entries) = mset entries
       \<and> (\<forall>k. filter (\<lambda>y. recency y = k) (by_recency entries) =
               filter (\<lambda>y. recency y = k) entries)"
proof (intro conjI allI)
  have "get_relevant_entries e coll u query limit =
          (cs @ cs', Inr (List.map_filter entry_text (slice_to limit (by_recency entries))))"
    using assms by (simp add: get_relevant_entries_def recent_fallback_integer)
  then show "\<exists>texts. get_relevant_entries e coll u query limit = (cs @ cs', Inr texts)
            \<and> (0 \<le> limit \<longrightarrow>
                 texts = List.map_filter entry_text (take (nat limit) (by_recency entries)))"
    by (simp add: slice_to_def)
qed (rule by_recency_descending by_recency_mset by_recency_stable)+

text \<open>
  A store of six entries of \<open>u1\<close> with a failing index search and limit 4: the four most
  recent entries have the texts empty, \<open>second\<close>, absent and \<^verbatim>\<open>null\<close>, and the search
  returns \<open>second\<close> alone.
\<close>

theorem fallback_on_search_error_witness:
  "scroll search_down_env mixed_store (user_filter ''u1'') 100
     = ([QdrantScroll (user_filter ''u1'') 100], Inr mixed_store)
   \<and> mixed_store \<noteq> []
   \<and> similarity_search search_down_env mixed_store ''anything'' (min 4 (int (length mixed_store)))
        [(''user_id'', ''u1''), (''type'', ''journal'')]
     = ([EmbedQuery ''anything'', QdrantSearch (user_filter ''u1'') 4], Inl IndexError)
   \<and> list_all integer_timestamp mixed_store
   \<and> (0::int) \<le> 4
   \<and> take (nat 4) (by_recency mixed_store)
       = [blank_entry, second_entry, textless_entry, null_text_entry]
   \<and> get_relevant_entries search_down_env mixed_store ''u1'' ''anything'' 4
     = ([QdrantScroll (user_filter ''u1'') 100, EmbedQuery ''anything'',
         QdrantSearch (user_filter ''u1'') 4], Inr [''second''])"
proof -
  have m: "mixed_store =
     [undated_entry, textless_entry, old_entry, blank_entry, null_text_entry, second_entry]"
    by (simp add: mixed_store_def)
  have o: "owns ''u1'' undated_entry" "owns ''u1'' textless_entry" "owns ''u1'' old_entry"
    "owns ''u1'' blank_entry" "owns ''u1'' null_text_entry" "owns ''u1'' second_entry"
    by (simp_all add: undated_entry_def textless_entry_def old_entry_def blank_entry_def
      null_text_entry_def second_entry_def)
  have s: "scroll search_down_env mixed_store (user_filter ''u1'') 100
     = ([QdrantScroll (user_filter ''u1'') 100], Inr mixed_store)"
    by (simp add: scroll_user search_down_env_def healthy_env_def m o)
  have n: "mixed_store \<noteq> []" by (simp add: m)
  have f: "similarity_search search_down_env mixed_store ''anything''
        (min 4 (int (length mixed_store))) [(''user_id'', ''u1''), (''type'', ''journal'')]
     = ([EmbedQuery ''anything'', QdrantSearch (user_filter ''u1'') 4], Inl IndexError)"
    by (simp add: similarity_search_def search_down_env_def healthy_env_def m
        qdrant_filter_user)
  have i: "list_all integer_timestamp mixed_store"
    by (simp add: m undated_entry_def textless_entry_def old_entry_def blank_entry_def
      null_text_entry_def second_entry_def)
  have t: "take (nat 4) (by_recency mixed_store)
       = [blank_entry, second_entry, textless_entry, null_text_entry]"
    by (simp add: mixed_order)
  have r: "List.map_filter entry_text [blank_entry, second_entry, textless_entry, null_text_entry]
     = [''second'']"
    by (simp add: blank_entry_def second_entry_def textless_entry_def null_text_entry_def)
  from fallback_on_search_error [OF s n f i] s n f i t r show ?thesis by auto
qed

subsection \<open>Retrieval: a failure of the query embedding\<close>

text \<open>
  Claim C3 says that a failure of the query embedding is not recovered by the fallback and
  reaches the caller. The source catches every exception of the similarity search, the
  embedding call included: with a failing embedding provider the search of the scenario
  returns the entries of \<open>u1\<close> by recency.
\<close>

theorem embedding_failure_counterexample:
  "embed embed_down_env ''calm'' = Inl EmbeddingError \<and>
   get_relevant_entries embed_down_env scenario_store ''u1'' ''calm'' 5 =
     ([QdrantScroll (user_filter ''u1'') 100, EmbedQuery ''calm''],
      Inr [''I went for a calm walk by the lake'', ''I felt anxious before my presentation''])"
  apply (simp add: get_relevant_entries_unfold embed_down_env_def healthy_env_def
      scenario_store_def owns_scenario similarity_search_def)
  apply (simp add: recent_fallback_def sorted_reverse_def slice_to_def anxious_entry_def
      walk_entry_def timestamp_key_def has_text_def text_of_def)
  done

text \<open>
  Claim C3, amended. When the embedding of the query fails, \<open>get_relevant_entries\<close> does
  not pass that failure on: it is caught like any other exception of the similarity search.
  After the scan and the failed embedding call the outcome of the search is the outcome of
  the recency fallback over the scanned entries; when these have integer timestamps or none
  and the limit is \<open>\<ge> 0\<close>, it is the texts of the first \<open>limit\<close> entries by recency.
\<close>

theorem embedding_failure_recovered:
  assumes "embed e query = Inl err"
  shows "get_relevant_entries e coll u query limit =
     (case scroll_fault e of
        Some err' \<Rightarrow> ([QdrantScroll (user_filter u) 100], Inl err')
      | None \<Rightarrow>
          if filter (owns u) coll = [] then ([QdrantScroll (user_filter u) 100], Inr [])
          else ([QdrantScroll (user_filter u) 100, EmbedQuery query],
                recent_fallback (take 100 (filter (owns u) coll)) limit))
     \<and> (scroll_fault e = None \<and> list_all integer_timestamp (take 100 (filter (owns u) coll))
          \<and> 0 \<le> limit \<longrightarrow>
        get_relevant_entries e coll u query limit =
          (if filter (owns u) coll = [] then [QdrantScroll (user_filter u) 100]
           else [QdrantScroll (user_filter u) 100, EmbedQuery query],
           Inr (List.map_filter entry_text
                  (take (nat limit) (by_recency (take 100 (filter (owns u) coll)))))))"
proof (intro conjI impI)
  show g: "get_relevant_entries e coll u query limit =
     (case scroll_fault e of
        Some err' \<Rightarrow> ([QdrantScroll (user_filter u) 100], Inl err')
      | None \<Rightarrow>
          if filter (owns u) coll = [] then ([QdrantScroll (user_filter u) 100], Inr [])
          else ([QdrantScroll (user_filter u) 100, EmbedQuery query],
                recent_fallback (take 100 (filter (owns u) coll)) limit))"
    using assms
    by (simp add: get_relevant_entries_unfold similarity_search_def Let_def split: option.split)
  assume a: "scroll_fault e = None \<and> list_all integer_timestamp (take 100 (filter (owns u) coll))
          \<and> 0 \<le> limit"
  show "get_relevant_entries e coll u query limit =
          (if filter (owns u) coll = [] then [QdrantScroll (user_filter u) 100]
           else [QdrantScroll (user_filter u) 100, EmbedQuery query],
           Inr (List.map_filter entry_text
                  (take (nat limit) (by_recency (take 100 (filter (owns u) coll))))))"
  proof (cases "filter (owns u) coll = []")
    case True
    with a g show ?thesis by (simp add: by_recency_def map_filter_simps)
  next
    case False
    with a g recent_fallback_take [of "take 100 (filter (owns u) coll)" limit]
    show ?thesis by simp
  qed
qed

text \<open>
  Three entries at t = 100, 200, 300 and a failing embedding provider: a search with limit 2
  returns the entries of t = 300 and t = 200, in this order.
\<close>

theorem embedding_failure_recovered_witness:
  "embed embed_down_env ''anything'' = Inl EmbeddingError
   \<and> scroll_fault embed_down_env = None
   \<and> list_all integer_timestamp (take 100 (filter (owns ''u1'') three_store))
   \<and> (0::int) \<le> 2
   \<and> get_relevant_entries embed_down_env three_store ''u1'' ''anything'' 2
     = ([QdrantScroll (user_filter ''u1'') 100, EmbedQuery ''anything''],
        Inr [''third'', ''second''])"
proof -
  have h: "embed embed_down_env ''anything'' = Inl EmbeddingError"
    by (simp add: embed_down_env_def healthy_env_def)
  have s: "scroll_fault embed_down_env = None" "filter (owns ''u1'') three_store \<noteq> []"
    "list_all integer_timestamp (take 100 (filter (owns ''u1'') three_store))"
    by (simp_all add: embed_down_env_def healthy_env_def three_store_def)
  from embedding_failure_recovered [OF h, of three_store "''u1''" 2] h s three_store_fallback
  show ?thesis by simp
qed

subsection \<open>Retrieval: a limit that is not positive\<close>

text \<open>
  Claim C4 says that a limit \<open>\<le> 0\<close> gives an empty result without any provider call. The
  source has no guard on the limit: with limit 0 the search of the scenario scans the
  index, embeds the query and calls the similarity search before it returns nothing.
\<close>

theorem nonpositive_limit_counterexample:
  "get_relevant_entries healthy_env scenario_store ''u1'' ''calm'' 0 =
     ([QdrantScroll (user_filter ''u1'') 100, EmbedQuery ''calm'',
       QdrantSearch (user_filter ''u1'') 0], Inr [])"
  by (simp add: get_relevant_entries_unfold healthy_env_def scenario_store_def
      owns_scenario similarity_search_def qdrant_filter_user)

text \<open>
  Claim C4, amended. For a limit \<open>\<le> 0\<close> and a scan that succeeds: a user without journal
  entries gets the empty result after the scan alone; for a user with entries the scan is
  followed by the embedding call of the similarity search; and with limit 0 a result, when
  there is one, is empty on both paths, and there is one whenever the scanned entries have
  integer timestamps or none.
\<close>

theorem nonpositive_limit_search:
  assumes "limit \<le> 0" and "scroll_fault e = None"
  shows "(filter (owns u) coll = [] \<longrightarrow>
            get_relevant_entries e coll u query limit
              = ([QdrantScroll (user_filter u) 100], Inr []))
       \<and> (filter (owns u) coll \<noteq> [] \<longrightarrow>
            (\<exists>cs. fst (get_relevant_entries e coll u query limit) =
                    QdrantScroll (user_filter u) 100 # EmbedQuery query # cs))
       \<and> (limit = 0 \<longrightarrow>
            (\<forall>texts. snd (get_relevant_entries e coll u query limit) = Inr texts \<longrightarrow>
               texts = []))
       \<and> (limit = 0 \<and> list_all integer_timestamp (take 100 (filter (owns u) coll)) \<longrightarrow>
            snd (get_relevant_entries e coll u query limit) = Inr [])"
proof (intro conjI impI allI)
  assume "filter (owns u) coll = []"
  with assms(2) show "get_relevant_entries e coll u query limit =
      ([QdrantScroll (user_filter u) 100], Inr [])"
    by (simp add: get_relevant_entries_unfold)
next
  assume ne: "filter (owns u) coll \<noteq> []"
  let ?k = "min limit (int (length (take 100 (filter (owns u) coll))))"
  let ?flt = "[(''user_id'', u), (''type'', ''journal'')]"
  from similarity_search_first_call [of e coll query ?k ?flt]
  obtain cs where cs: "fst (similarity_search e coll query ?k ?flt) = EmbedQuery query # cs" ..
  obtain cs' r where ss: "similarity_search e coll query ?k ?flt = (cs', r)"
    by (cases "similarity_search e coll query ?k ?flt")
  with cs have "cs' = EmbedQuery query # cs" by simp
  with ss ne assms(2)
  have "fst (get_relevant_entries e coll u query limit) =
          QdrantScroll (user_filter u) 100 # EmbedQuery query # cs"
    by (cases r) (simp_all add: get_relevant_entries_unfold Let_def)
  then show "\<exists>cs. fst (get_relevant_entries e coll u query limit) =
                    QdrantScroll (user_filter u) 100 # EmbedQuery query # cs" ..
next
  fix texts
  assume z: "limit = 0"
    and r: "snd (get_relevant_entries e coll u query limit) = Inr texts"
  let ?flt = "[(''user_id'', u), (''type'', ''journal'')]"
  obtain cs' r' where ss: "similarity_search e coll query 0 ?flt = (cs', r')"
    by (cases "similarity_search e coll query 0 ?flt")
  show "texts = []"
  proof (cases "filter (owns u) coll = []")
    case True
    with assms(2) r show ?thesis by (simp add: get_relevant_entries_unfold)
  next
    case False
    show ?thesis
    proof (cases r')
      case (Inl err)
      with ss z assms(2) r False
      have "recent_fallback (take 100 (filter (owns u) coll)) 0 = Inr texts"
        by (simp add: get_relevant_entries_unfold Let_def)
      then show ?thesis by (rule recent_fallback_zero)
    next
      case (Inr ds)
      with ss similarity_search_zero_result [of e coll query ?flt cs' ds] have "ds = []" by simp
      with Inr ss z assms(2) r False show ?thesis
        by (simp add: get_relevant_entries_unfold Let_def)
    qed
  qed
next
  assume a: "limit = 0 \<and> list_all integer_timestamp (take 100 (filter (owns u) coll))"
  let ?flt = "[(''user_id'', u), (''type'', ''journal'')]"
  obtain cs' r' where ss: "similarity_search e coll query 0 ?flt = (cs', r')"
    by (cases "similarity_search e coll query 0 ?flt")
  show "snd (get_relevant_entries e coll u query limit) = Inr []"
  proof (cases r')
    case (Inl err)
    with ss a assms(2) show ?thesis
      by (simp add: get_relevant_entries_unfold Let_def recent_fallback_integer slice_to_def
          map_filter_simps)
  next
    case (Inr ds)
    with ss similarity_search_zero_result [of e coll query ?flt cs' ds] have "ds = []" by simp
    with Inr ss a assms(2) show ?thesis
      by (simp add: get_relevant_entries_unfold Let_def)
  qed
qed

text \<open>
  The scenario with limit 0: \<open>u3\<close>, who owns nothing, and \<open>u1\<close>, who owns two entries.
\<close>

theorem nonpositive_limit_search_witness:
  "(0::int) \<le> 0 \<and> scroll_fault healthy_env = None
   \<and> filter (owns ''u3'') scenario_store = []
   \<and> get_relevant_entries healthy_env scenario_store ''u3'' ''calm'' 0
       = ([QdrantScroll (user_filter ''u3'') 100], Inr [])
   \<and> filter (owns ''u1'') scenario_store = [anxious_entry, walk_entry]
   \<and> list_all integer_timestamp (take 100 (filter (owns ''u1'') scenario_store))
   \<and> hd (tl (fst (get_relevant_entries healthy_env scenario_store ''u1'' ''calm'' 0)))
       = EmbedQuery ''calm''
   \<and> snd (get_relevant_entries healthy_env scenario_store ''u1'' ''calm'' 0) = Inr []"
proof -
  have h: "(0::int) \<le> 0" "scroll_fault healthy_env = None"
    by (simp_all add: healthy_env_def)
  have f: "filter (owns ''u3'') scenario_store = []"
    "filter (owns ''u1'') scenario_store = [anxious_entry, walk_entry]"
    by (simp_all add: scenario_store_def owns_scenario)
  have i: "list_all integer_timestamp (take 100 (filter (owns ''u1'') scenario_store))"
    by (simp add: f integer_timestamp_def anxious_entry_def walk_entry_def)
  from nonpositive_limit_search [OF h, of "''u3''" scenario_store "''calm''"]
    nonpositive_limit_search [OF h, of "''u1''" scenario_store "''calm''"] h f i
  show ?thesis by auto
qed

subsection \<open>Retrieval: the length of the result\<close>

text \<open>
  Claim C5 bounds the length of the result by \<open>min(limit, entryCount(u))\<close> for every limit.
  A negative limit breaks it: on the fallback path \<^verbatim>\<open>[:limit]\<close> with limit \<open>-1\<close> drops
  the last entry only, so the three entries of the store give two texts.
\<close>

theorem search_length_counterexample:
  "get_relevant_entries search_down_env three_store ''u1'' ''anything'' (- 1) =
     ([QdrantScroll (user_filter ''u1'') 100, EmbedQuery ''anything'',
       QdrantSearch (user_filter ''u1'') (- 1)], Inr [''third'', ''second''])
   \<and> \<not> int (length [''third'', ''second'']) \<le> min (- 1) (int (entry_count ''u1'' three_store))"
  by (simp add: get_relevant_entries_unfold search_down_env_def healthy_env_def three_store_def
      similarity_search_def qdrant_filter_user recent_fallback_integer by_recency_def
      slice_to_def entry_count_def)

text \<open>
  Claim C5, amended. For every limit \<open>\<ge> 0\<close>, on the semantic and on the fallback path,
  the result has at most \<open>min(limit, entryCount(u))\<close> texts, where \<open>entryCount(u)\<close> is the
  number of journal entries that \<open>u\<close> owns.
\<close>

theorem search_length_bound:
  assumes "0 \<le> limit" and "snd (get_relevant_entries e coll u query limit) = Inr texts"
  shows "int (length texts) \<le> min limit (int (entry_count u coll))"
proof (cases "scroll_fault e")
  case (Some err)
  with assms show ?thesis by (simp add: get_relevant_entries_unfold)
next
  case None
  let ?entries = "take 100 (filter (owns u) coll)"
  have le: "length ?entries \<le> entry_count u coll" by (simp add: entry_count_def)
  show ?thesis
  proof (cases "?entries = []")
    case True
    with None assms show ?thesis by (simp add: get_relevant_entries_unfold)
  next
    case False
    obtain cs r where ss: "similarity_search e coll query (min limit (int (length ?entries)))
        [(''user_id'', u), (''type'', ''journal'')] = (cs, r)"
      by (cases "similarity_search e coll query (min limit (int (length ?entries)))
        [(''user_id'', u), (''type'', ''journal'')]")
    show ?thesis
    proof (cases r)
      case (Inl err)
      with None False ss assms have "recent_fallback ?entries limit = Inr texts"
        by (simp add: get_relevant_entries_unfold Let_def)
      from recent_fallback_length [OF assms(1) this] le assms(1)
      show ?thesis by (auto simp: entry_count_def)
    next
      case (Inr ds)
      with None False ss assms have "map doc_page_content ds = texts"
        by (simp add: get_relevant_entries_unfold Let_def)
      with ss Inr similarity_search_length [of e coll query _ u cs ds]
      have "length texts \<le> nat (min limit (int (length ?entries)))"
        "length texts \<le> length (filter (owns u) coll)" by auto
      with assms(1) show ?thesis by (simp add: entry_count_def)
    qed
  qed
qed

text \<open>The scenario with limit 1: one text, of the two entries that \<open>u1\<close> owns.\<close>

theorem search_length_bound_witness:
  "(0::int) \<le> 1
   \<and> snd (get_relevant_entries healthy_env scenario_store ''u1'' ''calm'' 1)
       = Inr [''I went for a calm walk by the lake'']
   \<and> entry_count ''u1'' scenario_store = 2
   \<and> int (length [''I went for a calm walk by the lake''])
       \<le> min 1 (int (entry_count ''u1'' scenario_store))"
proof -
  have h: "(0::int) \<le> 1" by simp
  have g: "snd (get_relevant_entries healthy_env scenario_store ''u1'' ''calm'' 1)
       = Inr [''I went for a calm walk by the lake'']"
    apply (simp add: get_relevant_entries_unfold healthy_env_def scenario_store_def owns_scenario
       similarity_search_def qdrant_filter_user matches_user_filter dot_def)
    apply (simp add: anxious_entry_def walk_entry_def document_text_def)
    done
  have c: "entry_count ''u1'' scenario_store = 2"
    by (simp add: entry_count_def scenario_store_def owns_scenario)
  from search_length_bound [OF h g] g c show ?thesis by simp
qed

subsection \<open>Analysis: too few entries\<close>

lemma scroll_chat: "scroll (e\<lparr>chat := c\<rparr>) coll flt cap = scroll e coll flt cap"
  by (simp add: scroll_def)

lemma similarity_search_chat:
  "similarity_search (e\<lparr>chat := c\<rparr>) coll query k flt = similarity_search e coll query k flt"
  by (simp add: similarity_search_def split: sum.split option.split)

lemma get_relevant_entries_chat:
  "get_relevant_entries (e\<lparr>chat := c\<rparr>) coll u query limit =
   get_relevant_entries e coll u query limit"
  unfolding get_relevant_entries_def scroll_chat similarity_search_chat by (rule refl)

lemma analyze_without_entries:
  "snd (get_relevant_entries e coll u question 8) = Inr [] \<Longrightarrow>
     analyze_personality_and_respond e coll u question =
       (fst (get_relevant_entries e coll u question 8), Inr not_enough_entries)"
  by (cases "get_relevant_entries e coll u question 8")
     (simp add: analyze_personality_and_respond_def)

text \<open>
  Claim C6. When the retrieval for the question returns no text (in particular for a user
  without stored entries), \<open>analyze_personality_and_respond\<close> returns the fixed sentence
  \<open>not_enough_entries\<close> as a normal result, and makes no call to the completion provider:
  its calls are those of the retrieval, and its outcome is the same whatever the completion
  provider would answer.
\<close>

theorem sentinel_without_completion:
  "(snd (get_relevant_entries e coll u question 8) = Inr [] \<longrightarrow>
      analyze_personality_and_respond e coll u question =
        (fst (get_relevant_entries e coll u question 8), Inr not_enough_entries)
      \<and> (\<forall>r. ChatCompletion r \<notin> set (fst (analyze_personality_and_respond e coll u question)))
      \<and> (\<forall>c. analyze_personality_and_respond (e\<lparr>chat := c\<rparr>) coll u question =
               analyze_personality_and_respond e coll u question))
   \<and> (scroll_fault e = None \<and> entry_count u coll = 0 \<longrightarrow>
        analyze_personality_and_respond e coll u question =
          ([QdrantScroll (user_filter u) 100], Inr not_enough_entries))"
proof (intro conjI impI allI)
  assume a: "snd (get_relevant_entries e coll u question 8) = Inr []"
  then show eq: "analyze_personality_and_respond e coll u question =
        (fst (get_relevant_entries e coll u question 8), Inr not_enough_entries)"
    by (rule analyze_without_entries)
  fix r
  show "ChatCompletion r \<notin> set (fst (analyze_personality_and_respond e coll u question))"
    using eq get_relevant_entries_no_completion [of r e coll u question 8] by simp
  fix c
  from a have "snd (get_relevant_entries (e\<lparr>chat := c\<rparr>) coll u question 8) = Inr []"
    by (simp only: get_relevant_entries_chat)
  then have "analyze_personality_and_respond (e\<lparr>chat := c\<rparr>) coll u question =
      (fst (get_relevant_entries (e\<lparr>chat := c\<rparr>) coll u question 8), Inr not_enough_entries)"
    by (rule analyze_without_entries)
  with eq show "analyze_personality_and_respond (e\<lparr>chat := c\<rparr>) coll u question =
               analyze_personality_and_respond e coll u question"
    by (simp only: get_relevant_entries_chat)
next
  assume "scroll_fault e = None \<and> entry_count u coll = 0"
  then show "analyze_personality_and_respond e coll u question =
          ([QdrantScroll (user_filter u) 100], Inr not_enough_entries)"
    by (simp add: analyze_personality_and_respond_def get_relevant_entries_unfold
        entry_count_def)
qed

theorem sentinel_without_completion_witness:
  "scroll_fault healthy_env = None \<and> entry_count ''u3'' scenario_store = 0 \<and>
   snd (get_relevant_entries healthy_env scenario_store ''u3'' ''Who am I?'' 8) = Inr [] \<and>
   analyze_personality_and_respond healthy_env scenario_store ''u3'' ''Who am I?'' =
     ([QdrantScroll (user_filter ''u3'') 100], Inr not_enough_entries)"
proof -
  have h: "scroll_fault healthy_env = None \<and> entry_count ''u3'' scenario_store = 0"
    by (simp add: healthy_env_def entry_count_def scenario_store_def owns_scenario)
  have g: "snd (get_relevant_entries healthy_env scenario_store ''u3'' ''Who am I?'' 8) = Inr []"
    by (simp add: get_relevant_entries_unfold healthy_env_def scenario_store_def owns_scenario)
  from sentinel_without_completion [of healthy_env scenario_store "''u3''" "''Who am I?''"] h g
  show ?thesis by blast
qed

subsection \<open>Feedback\<close>

text \<open>
  Claim C7 says that \<open>get_ai_feedback\<close> returns a structured payload of five checked fields
  or fails with a malformed-response error, never free-form text. The source parses
  nothing: when the completion provider answers with a plain sentence, that sentence is the
  result, although it does not parse into the five fields.
\<close>

theorem feedback_unparsed_counterexample:
  "snd (get_ai_feedback chatty_env ''Today was exhausting but I learned something.'')
     = Inr ''I am sorry you feel that way.''
   \<and> spec_parse_feedback ''I am sorry you feel that way.'' = None"
  by (simp add: get_ai_feedback_def chatty_env_def healthy_env_def Let_def
      spec_parse_feedback_def parse_object_def is_space_def digit_of_def)

text \<open>
  Claim C7, amended. \<open>get_ai_feedback\<close> makes one completion call, to the model
  \<open>gpt-4\<close> with the fixed system prompt and the journal text as the user message, and
  returns the outcome of that call as it is: the generated text unparsed, or the provider's
  error.
\<close>

theorem feedback_is_provider_text:
  "\<exists>request. get_ai_feedback e journal_text = ([ChatCompletion request], chat e request)
     \<and> model request = ''gpt-4''
     \<and> messages request = [(''system'', feedback_system_prompt), (''user'', journal_text)]"
  by (simp add: get_ai_feedback_def Let_def)

subsection \<open>Storing an entry twice\<close>





text \<open>Every record that the program writes has an integer timestamp.\<close>

lemma upsert_list_all: "P p \<Longrightarrow> list_all P coll \<Longrightarrow> list_all P (upsert p coll)"
  by (auto simp: upsert_def list_all_iff)

lemma store_journal_entry_integer_timestamps:
  assumes "store_journal_entry e random now coll u text = (cs, r, coll')"
    and "list_all integer_timestamp coll"
  shows "list_all integer_timestamp coll'"
  using assms
  by (auto simp: store_journal_entry_def add_texts_def Let_def integer_timestamp_def
      intro!: upsert_list_all split: sum.splits option.splits)

subsection \<open>The printed form of a UUID\<close>


lemma length_hex_digits [simp]: "length (hex_digits k n) = k"
  by (induction k arbitrary: n) simp_all














subsection \<open>The context of the analysis prompt\<close>

lemma separator_unfold: "separator = CHR 0x0A # CHR 0x0A # ''---\<newline>\<newline>''"
  by (simp add: separator_def)

lemma has_blank_line_append: "has_blank_line (x @ CHR 0x0A # CHR 0x0A # r)"
  by (induction x rule: has_blank_line.induct) auto

lemma not_plain_with_separator: "\<not> plain_entry (y @ separator @ r)"
  using has_blank_line_append [of y] by (simp add: plain_entry_def separator_unfold)

lemma separator_split:
  assumes "x @ separator @ r1 = y @ separator @ r2" "plain_entry x" "plain_entry y"
  shows "x = y \<and> r1 = r2"
proof -
  have aux: "z = []"
    if eq: "z @ separator @ r = separator @ r'" and pl: "plain_entry (w @ z)" for z r r' w
  proof (cases z)
    case Nil then show ?thesis .
  next
    case (Cons a z')
    with eq have a: "a = CHR 0x0A" by (simp add: separator_unfold)
    show ?thesis
    proof (cases z')
      case Nil
      with Cons a pl show ?thesis by (simp add: plain_entry_def ends_with_newline_def)
    next
      case (Cons b z'')
      with \<open>z = a # z'\<close> eq have "b = CHR 0x0A" by (simp add: separator_unfold)
      with Cons \<open>z = a # z'\<close> a pl has_blank_line_append [of w z'']
      show ?thesis by (simp add: plain_entry_def)
    qed
  qed
  from assms(1) have "\<exists>z. (x = y @ z \<and> z @ separator @ r1 = separator @ r2) \<or>
     (x @ z = y \<and> separator @ r1 = z @ separator @ r2)"
    by (rule iffD1 [OF append_eq_append_conv2])
  then obtain z where
    "(x = y @ z \<and> z @ separator @ r1 = separator @ r2) \<or>
     (x @ z = y \<and> separator @ r1 = z @ separator @ r2)" ..
  then show ?thesis
  proof
    assume h: "x = y @ z \<and> z @ separator @ r1 = separator @ r2"
    with aux [of z r1 r2 y] assms(2) have "z = []" by simp
    with h show ?thesis by simp
  next
    assume h: "x @ z = y \<and> separator @ r1 = z @ separator @ r2"
    with aux [of z r2 r1 x] assms(3) have "z = []" by simp
    with h show ?thesis by simp
  qed
qed

lemma join_injective:
  "xs \<noteq> [] \<Longrightarrow> ys \<noteq> [] \<Longrightarrow> list_all plain_entry xs \<Longrightarrow> list_all plain_entry ys \<Longrightarrow>
   join separator xs = join separator ys \<Longrightarrow> xs = ys"
proof (induction xs arbitrary: ys)
  case Nil
  then show ?case by simp
next
  case (Cons x xs)
  from Cons.prems(2) obtain y ys' where ys: "ys = y # ys'" by (cases ys) auto
  show ?case
  proof (cases xs)
    case Nil
    show ?thesis
    proof (cases ys')
      case Nil
      with \<open>xs = []\<close> ys Cons.prems show ?thesis by simp
    next
      case (Cons y' ys'')
      with \<open>xs = []\<close> ys Cons.prems not_plain_with_separator [of y "join separator (y' # ys'')"]
      show ?thesis by simp
    qed
  next
    case (Cons x' xs')
    note xs = this
    show ?thesis
    proof (cases ys')
      case Nil
      with xs ys Cons.prems not_plain_with_separator [of x "join separator (x' # xs')"]
      show ?thesis by simp
    next
      case (Cons y' ys'')
      with xs ys Cons.prems
      have "x @ separator @ join separator xs = y @ separator @ join separator ys'"
        "plain_entry x" "plain_entry y" by simp_all
      from separator_split [OF this] have "x = y" "join separator xs = join separator ys'"
        by simp_all
      moreover from xs Cons ys Cons.prems have "xs = ys'"
        using Cons.IH [of ys'] \<open>join separator xs = join separator ys'\<close> by simp
      ultimately show ?thesis using ys by simp
    qed
  qed
qed

lemma join_append:
  "xs \<noteq> [] \<Longrightarrow> ys \<noteq> [] \<Longrightarrow>
     join sep (xs @ ys) = join sep xs @ sep @ join sep ys"
proof (induction sep xs rule: join.induct)
  case (2 sep x)
  then show ?case by (cases ys) simp_all
qed simp_all

text \<open>
  Claim C9 says that the context joins the entries with a separator that no entry can be
  mistaken for, so that distinct sequences of entries give distinct contexts. The source
  joins with the plain text of the separator and escapes nothing: one entry that contains
  the separator gives the same context as two entries.
\<close>

theorem context_join_counterexample:
  "[''a'' @ separator @ ''b''] \<noteq> [''a'', ''b''] \<and>
   join separator [''a'' @ separator @ ''b''] = join separator [''a'', ''b'']"
  by (simp add: separator_def)

text \<open>
  Claim C9, amended. The context that \<open>analyze_personality_and_respond\<close> puts into the
  system prompt is the retrieved texts joined by \<open>separator\<close> in their order (the context
  of a sequence followed by another is the first context, the separator, the second
  context). Distinct non-empty sequences give distinct contexts when no entry contains two
  line breaks in a row or ends with a line break.
\<close>

theorem context_join_plain_entries:
  "(xs \<noteq> [] \<and> ys \<noteq> [] \<longrightarrow>
      join separator (xs @ ys) = join separator xs @ separator @ join separator ys)
   \<and> (xs \<noteq> [] \<and> ys \<noteq> [] \<and> list_all plain_entry xs \<and> list_all plain_entry ys \<and>
        join separator xs = join separator ys \<longrightarrow> xs = ys)
   \<and> (snd (get_relevant_entries e coll u question 8) = Inr xs \<and> xs \<noteq> [] \<longrightarrow>
        (\<exists>request.
           analyze_personality_and_respond e coll u question =
             (fst (get_relevant_entries e coll u question 8) @ [ChatCompletion request],
              chat e request)
           \<and> messages request =
               [(''system'', analysis_system_prompt (join separator xs)), (''user'', question)]))"
proof (intro conjI impI)
  assume "xs \<noteq> [] \<and> ys \<noteq> []"
  then show "join separator (xs @ ys) = join separator xs @ separator @ join separator ys"
    by (simp add: join_append)
next
  assume "xs \<noteq> [] \<and> ys \<noteq> [] \<and> list_all plain_entry xs \<and> list_all plain_entry ys \<and>
        join separator xs = join separator ys"
  then show "xs = ys" by (intro join_injective) simp_all
next
  assume "snd (get_relevant_entries e coll u question 8) = Inr xs \<and> xs \<noteq> []"
  then show "\<exists>request.
           analyze_personality_and_respond e coll u question =
             (fst (get_relevant_entries e coll u question 8) @ [ChatCompletion request],
              chat e request)
           \<and> messages request =
               [(''system'', analysis_system_prompt (join separator xs)), (''user'', question)]"
    by (cases "get_relevant_entries e coll u question 8")
       (simp add: analyze_personality_and_respond_def Let_def)
qed

theorem context_join_plain_entries_witness:
  "[''third'', ''second'', ''first''] \<noteq> []
   \<and> list_all plain_entry [''third'', ''second'', ''first'']
   \<and> snd (get_relevant_entries search_down_env three_store ''u1'' ''anything'' 8)
       = Inr [''third'', ''second'', ''first'']
   \<and> join separator ([''third'', ''second'', ''first''] @ [''third'', ''second'', ''first''])
       = join separator [''third'', ''second'', ''first''] @ separator
           @ join separator [''third'', ''second'', ''first'']
   \<and> snd (analyze_personality_and_respond search_down_env three_store ''u1'' ''anything'')
       = Inr ''You seem calm.''"
proof -
  have n: "[''third'', ''second'', ''first''] \<noteq> []" by simp
  have p: "list_all plain_entry [''third'', ''second'', ''first'']"
    by (simp add: plain_entry_def ends_with_newline_def)
  have g: "snd (get_relevant_entries search_down_env three_store ''u1'' ''anything'' 8) =
     Inr [''third'', ''second'', ''first'']"
    by (simp add: get_relevant_entries_unfold search_down_env_def healthy_env_def three_store_def
      similarity_search_def qdrant_filter_user recent_fallback_integer by_recency_def
      slice_to_def map_filter_simps)
  have c: "chat search_down_env r = Inr ''You seem calm.''" for r
    by (simp add: search_down_env_def healthy_env_def)
  from context_join_plain_entries [of "[''third'', ''second'', ''first'']"
      "[''third'', ''second'', ''first'']" search_down_env three_store "''u1''" "''anything''"]
    n p g c
  show ?thesis by auto
qed

subsection \<open>The fallback truncates before it drops entries without text\<close>

text \<open>
  Claim C10 says that an entry without timestamp is ranked as if its timestamp were 0, that
  is, last. It is ranked with the key 0, but that is not last when another entry has a
  negative timestamp: of an entry without timestamp and an entry of t = -5, a search with
  limit 1 and a failing index search returns the entry without timestamp.
\<close>

theorem undated_not_last_counterexample:
  "undated undated_entry \<and> \<not> undated old_entry
   \<and> get_relevant_entries search_down_env negative_store ''u1'' ''anything'' 1 =
     ([QdrantScroll (user_filter ''u1'') 100, EmbedQuery ''anything'',
       QdrantSearch (user_filter ''u1'') 1], Inr [''undated''])"
proof -
  have "undated undated_entry" "\<not> undated old_entry"
    by (simp_all add: undated_def undated_entry_def old_entry_def journal_point_def)
  moreover have "recent_fallback [undated_entry, old_entry] 1 = Inr [''undated'']"
    by (simp add: undated_entry_def old_entry_def recent_fallback_integer by_recency_def
        slice_to_def map_filter_simps)
  moreover have "owns ''u1'' undated_entry" "owns ''u1'' old_entry"
    by (simp_all add: undated_entry_def old_entry_def)
  ultimately show ?thesis
    by (simp add: get_relevant_entries_unfold search_down_env_def healthy_env_def
        negative_store_def similarity_search_def qdrant_filter_user)
qed

text \<open>
  Claim C10, amended. On the fallback path (scanned entries with integer timestamps or none,
  limit \<open>\<ge> 0\<close>) \<open>get_relevant_entries\<close> returns the texts of the first \<open>limit\<close> entries
  of the recency order, the entries without text dropped after the cut: whenever one of the
  first \<open>limit\<close> entries has no text and an entry beyond them has one, the result is
  strictly shorter than \<open>min(limit, number of the user's entries with text)\<close>. An entry
  without timestamp is ranked with the key 0: every entry with a positive timestamp comes
  before it and every entry with a negative timestamp after it.
\<close>

theorem fallback_truncates_before_filtering:
  assumes "scroll e coll (user_filter u) 100 = (cs, Inr entries)" and "entries \<noteq> []"
    and "similarity_search e coll query (min limit (int (length entries)))
           [(''user_id'', u), (''type'', ''journal'')] = (cs', Inl err)"
    and "list_all integer_timestamp entries" and "0 \<le> limit"
  shows "get_relevant_entries e coll u query limit =
           (cs @ cs', Inr (List.map_filter entry_text (take (nat limit) (by_recency entries))))
       \<and> ((\<exists>p\<in>set (take (nat limit) (by_recency entries)). entry_text p = None)
          \<and> (\<exists>p\<in>set (drop (nat limit) (by_recency entries)). entry_text p \<noteq> None) \<longrightarrow>
          int (length (List.map_filter entry_text (take (nat limit) (by_recency entries))))
            < min limit (int (length (filter (\<lambda>p. entry_text p \<noteq> None)
                                        (filter (owns u) coll)))))
       \<and> (\<forall>i j. i < length entries \<and> j < length entries \<and> undated (by_recency entries ! i) \<longrightarrow>
            (0 < recency (by_recency entries ! j) \<longrightarrow> j < i)
            \<and> (recency (by_recency entries ! j) < 0 \<longrightarrow> i < j))"
proof (intro conjI impI allI)
  show "get_relevant_entries e coll u query limit =
           (cs @ cs', Inr (List.map_filter entry_text (take (nat limit) (by_recency entries))))"
    using assms by (simp add: get_relevant_entries_def recent_fallback_take)
next
  let ?S = "by_recency entries"
  let ?P = "\<lambda>p. entry_text p \<noteq> None"
  assume "(\<exists>p\<in>set (take (nat limit) ?S). entry_text p = None)
          \<and> (\<exists>p\<in>set (drop (nat limit) ?S). entry_text p \<noteq> None)"
  then obtain p q where p: "p \<in> set (take (nat limit) ?S)" "\<not> ?P p"
    and q: "q \<in> set (drop (nat limit) ?S)" "?P q" by auto
  from assms(1) have entries: "entries = take 100 (filter (owns u) coll)"
    by (simp add: scroll_user split: option.splits)
  have "length (filter ?P (take (nat limit) ?S)) < length (take (nat limit) ?S)"
    using p by (rule filter_less_length)
  then have a: "length (filter ?P (take (nat limit) ?S)) < nat limit" by simp
  have "length (filter ?P (take (nat limit) ?S)) < length (filter ?P ?S)"
    using q by (rule filter_less_take)
  also have "length (filter ?P ?S) = length (filter ?P entries)"
  proof -
    have "mset (filter ?P ?S) = mset (filter ?P entries)"
      by (simp only: mset_filter by_recency_mset)
    then show ?thesis by (rule mset_eq_length)
  qed
  also have "\<dots> \<le> length (filter ?P (filter (owns u) coll))"
    unfolding entries by (rule length_filter_take)
  finally have b: "length (filter ?P (take (nat limit) ?S))
      < length (filter ?P (filter (owns u) coll))" .
  from a b assms(5)
  show "int (length (List.map_filter entry_text (take (nat limit) ?S)))
            < min limit (int (length (filter ?P (filter (owns u) coll))))"
    by (simp add: length_map_filter_eq)
next
  fix i j
  let ?S = "by_recency entries"
  assume a: "i < length entries \<and> j < length entries \<and> undated (?S ! i)"
  have len: "length ?S = length entries" by (simp add: by_recency_def)
  from a have z: "recency (?S ! i) = 0" by (simp add: undated_recency)
  {
    assume "0 < recency (?S ! j)"
    with z have "recency (?S ! i) < recency (?S ! j)" by simp
    with by_recency_descending [of entries] a len show "j < i"
      by (intro descending_nth [of recency ?S i j]) simp_all
  }
  {
    assume "recency (?S ! j) < 0"
    with z have "recency (?S ! j) < recency (?S ! i)" by simp
    with by_recency_descending [of entries] a len show "i < j"
      by (intro descending_nth [of recency ?S j i]) simp_all
  }
qed

text \<open>
  The store of six entries with limit 2: the most recent entry has an empty text, so the
  search returns one text although three entries have one; the entry without timestamp is
  the fifth of the six, after the entries of t > 0 and before the entry of t = -5.
\<close>

theorem fallback_truncates_before_filtering_witness:
  "scroll search_down_env mixed_store (user_filter ''u1'') 100
     = ([QdrantScroll (user_filter ''u1'') 100], Inr mixed_store)
   \<and> mixed_store \<noteq> []
   \<and> similarity_search search_down_env mixed_store ''anything'' (min 2 (int (length mixed_store)))
        [(''user_id'', ''u1''), (''type'', ''journal'')]
     = ([EmbedQuery ''anything'', QdrantSearch (user_filter ''u1'') 2], Inl IndexError)
   \<and> list_all integer_timestamp mixed_store
   \<and> (0::int) \<le> 2
   \<and> get_relevant_entries search_down_env mixed_store ''u1'' ''anything'' 2
     = ([QdrantScroll (user_filter ''u1'') 100, EmbedQuery ''anything'',
         QdrantSearch (user_filter ''u1'') 2], Inr [''second''])
   \<and> blank_entry \<in> set (take (nat 2) (by_recency mixed_store)) \<and> entry_text blank_entry = None
   \<and> undated_entry \<in> set (drop (nat 2) (by_recency mixed_store))
   \<and> entry_text undated_entry \<noteq> None
   \<and> int (length [''second''])
       < min 2 (int (length (filter (\<lambda>p. entry_text p \<noteq> None)
                               (filter (owns ''u1'') mixed_store))))
   \<and> (4::nat) < length mixed_store \<and> (0::nat) < length mixed_store
   \<and> (5::nat) < length mixed_store
   \<and> by_recency mixed_store ! 4 = undated_entry \<and> undated undated_entry
   \<and> 0 < recency (by_recency mixed_store ! 0) \<and> (0::nat) < 4
   \<and> recency (by_recency mixed_store ! 5) < 0 \<and> (4::nat) < 5"
proof -
  have m: "mixed_store =
     [undated_entry, textless_entry, old_entry, blank_entry, null_text_entry, second_entry]"
    by (simp add: mixed_store_def)
  have o: "owns ''u1'' undated_entry" "owns ''u1'' textless_entry" "owns ''u1'' old_entry"
    "owns ''u1'' blank_entry" "owns ''u1'' null_text_entry" "owns ''u1'' second_entry"
    by (simp_all add: undated_entry_def textless_entry_def old_entry_def blank_entry_def
      null_text_entry_def second_entry_def)
  have s: "scroll search_down_env mixed_store (user_filter ''u1'') 100
     = ([QdrantScroll (user_filter ''u1'') 100], Inr mixed_store)"
    by (simp add: scroll_user search_down_env_def healthy_env_def m o)
  have n: "mixed_store \<noteq> []" by (simp add: m)
  have f: "similarity_search search_down_env mixed_store ''anything''
        (min 2 (int (length mixed_store))) [(''user_id'', ''u1''), (''type'', ''journal'')]
     = ([EmbedQuery ''anything'', QdrantSearch (user_filter ''u1'') 2], Inl IndexError)"
    by (simp add: similarity_search_def search_down_env_def healthy_env_def m
        qdrant_filter_user)
  have i: "list_all integer_timestamp mixed_store"
    by (simp add: m undated_entry_def textless_entry_def old_entry_def blank_entry_def
      null_text_entry_def second_entry_def)
  have l: "(0::int) \<le> 2" by simp
  have t: "take (nat 2) (by_recency mixed_store) = [blank_entry, second_entry]"
    "drop (nat 2) (by_recency mixed_store)
       = [textless_entry, null_text_entry, undated_entry, old_entry]"
    by (simp_all add: mixed_order)
  have x: "entry_text blank_entry = None" "entry_text second_entry = Some ''second''"
    "entry_text undated_entry = Some ''undated''" "entry_text textless_entry = None"
    "entry_text null_text_entry = None" "entry_text old_entry = Some ''old''"
    by (simp_all add: blank_entry_def second_entry_def undated_entry_def textless_entry_def
        null_text_entry_def old_entry_def)
  have r: "List.map_filter entry_text (take (nat 2) (by_recency mixed_store)) = [''second'']"
    by (simp only: t) (simp add: x map_filter_simps)
  have c: "length (filter (\<lambda>p. entry_text p \<noteq> None) (filter (owns ''u1'') mixed_store)) = 3"
    by (simp add: m o x)
  have k: "by_recency mixed_store ! 4 = undated_entry" "by_recency mixed_store ! 0 = blank_entry"
    "by_recency mixed_store ! 5 = old_entry"
    by (simp_all add: mixed_order)
  have len: "length mixed_store = 6" by (simp add: m)
  have u: "undated undated_entry" "recency blank_entry = 300" "recency old_entry = - 5"
    by (simp_all add: undated_def recency_def undated_entry_def journal_point_def
        blank_entry_def old_entry_def)
  have b: "blank_entry \<in> set (take (nat 2) (by_recency mixed_store))"
    "undated_entry \<in> set (drop (nat 2) (by_recency mixed_store))"
    by (simp_all only: t) simp_all
  note T = fallback_truncates_before_filtering [OF s n f i l]
  from T have g: "get_relevant_entries search_down_env mixed_store ''u1'' ''anything'' 2
     = ([QdrantScroll (user_filter ''u1'') 100, EmbedQuery ''anything'',
         QdrantSearch (user_filter ''u1'') 2], Inr [''second''])"
    by (simp only: r) simp
  from T have "(\<exists>p\<in>set (take (nat 2) (by_recency mixed_store)). entry_text p = None)
          \<and> (\<exists>p\<in>set (drop (nat 2) (by_recency mixed_store)). entry_text p \<noteq> None) \<longrightarrow>
          int (length (List.map_filter entry_text (take (nat 2) (by_recency mixed_store))))
            < min 2 (int (length (filter (\<lambda>p. entry_text p \<noteq> None)
                                        (filter (owns ''u1'') mixed_store))))"
    by (rule conjunct2 [THEN conjunct1])
  moreover from b x have "(\<exists>p\<in>set (take (nat 2) (by_recency mixed_store)). entry_text p = None)
          \<and> (\<exists>p\<in>set (drop (nat 2) (by_recency mixed_store)). entry_text p \<noteq> None)"
    by blast
  ultimately have d: "int (length [''second''])
       < min 2 (int (length (filter (\<lambda>p. entry_text p \<noteq> None)
                               (filter (owns ''u1'') mixed_store))))"
    by (simp only: r)
  from T have q: "\<forall>i j. i < length mixed_store \<and> j < length mixed_store
            \<and> undated (by_recency mixed_store ! i) \<longrightarrow>
            (0 < recency (by_recency mixed_store ! j) \<longrightarrow> j < i)
            \<and> (recency (by_recency mixed_store ! j) < 0 \<longrightarrow> i < j)"
    by (rule conjunct2 [THEN conjunct2])
  have p: "0 < recency (by_recency mixed_store ! 0)" "recency (by_recency mixed_store ! 5) < 0"
    "undated (by_recency mixed_store ! 4)"
    by (simp_all add: k u)
  from q [rule_format, of 4 0] q [rule_format, of 4 5] p len
  have v: "(0::nat) < 4" "(4::nat) < 5" by simp_all
  from s n f i l g b x d len k u p v show ?thesis by simp
qed

end
